theory Spec2Isabelle
  imports Main
begin

section \<open>Python values used by the nodes\<close>

text \<open>
  Python integers are unbounded and are modelled as \<open>int\<close>. A Python \<open>str\<close> is a
  sequence of Unicode code points: a list of numbers. \<open>ascii\<close> turns a literal of this
  theory into such a string. Exceptions are values of \<open>py_error\<close>, in the left summand
  of a result.
\<close>

type_synonym codepoint = nat

type_synonym pystr = "codepoint list"

definition ascii :: "string \<Rightarrow> pystr" where
  "ascii s = map of_char s"

abbreviation (input) LF :: codepoint where "LF \<equiv> 10"
abbreviation (input) CR :: codepoint where "CR \<equiv> 13"
abbreviation (input) COMMA :: codepoint where "COMMA \<equiv> 44"
abbreviation (input) MINUS :: codepoint where "MINUS \<equiv> 45"
abbreviation (input) PLUS :: codepoint where "PLUS \<equiv> 43"
abbreviation (input) DOT :: codepoint where "DOT \<equiv> 46"
abbreviation (input) UNDERSCORE :: codepoint where "UNDERSCORE \<equiv> 95"
abbreviation (input) LBRACKET :: codepoint where "LBRACKET \<equiv> 91"
abbreviation (input) RBRACKET :: codepoint where "RBRACKET \<equiv> 93"
abbreviation (input) BACKTICK :: codepoint where "BACKTICK \<equiv> 96"

datatype py_error = ValueError | ZeroDivisionError | IndexError | KeyError | TypeError

subsection \<open>\<open>str(n)\<close> and \<open>format(n, "02d")\<close> for an integer\<close>

definition digit_char :: "nat \<Rightarrow> codepoint" where
  "digit_char d = 48 + d"

fun str_nat :: "nat \<Rightarrow> pystr" where
  "str_nat n = (if n < 10 then [digit_char n] else str_nat (n div 10) @ [digit_char (n mod 10)])"

declare str_nat.simps [simp del]

definition py_str :: "int \<Rightarrow> pystr" where
  "py_str i = (if i < 0 then MINUS # str_nat (nat (- i)) else str_nat (nat i))"

text \<open>
  The format specification \<open>0wd\<close>: the sign first, then zeros up to the width \<open>w\<close>, then
  the digits. A number that is already \<open>w\<close> characters wide is not padded.
\<close>

definition format_0wd :: "nat \<Rightarrow> int \<Rightarrow> pystr" where
  "format_0wd w i =
     (let sign = (if i < 0 then [MINUS] else []);
          digits = str_nat (nat \<bar>i\<bar>)
      in sign @ replicate (w - length sign - length digits) (digit_char 0) @ digits)"

text \<open>
  What the shot name is to show for a number: two digits, a leading zero for \<open>0\<close> to
  \<open>9\<close>; a number that needs more room is written in full.
\<close>

definition two_digits :: "int \<Rightarrow> pystr" where
  "two_digits n = (if 0 \<le> n \<and> n < 10 then digit_char 0 # py_str n else py_str n)"

subsection \<open>String methods\<close>

text \<open>
  \<open>s.strip()\<close> removes leading and trailing whitespace. The whitespace of a Python
  string: the ASCII codes 9 to 13, 28 to 31 and 32, and beyond ASCII U+0085, U+00A0,
  U+1680, U+2000 to U+200A, U+2028, U+2029, U+202F, U+205F and U+3000.
\<close>

definition is_space :: "codepoint \<Rightarrow> bool" where
  "is_space c = (c \<in> set [0x09, 0x0A, 0x0B, 0x0C, 0x0D, 0x1C, 0x1D, 0x1E, 0x1F, 0x20,
                          0x85, 0xA0, 0x1680,
                          0x2000, 0x2001, 0x2002, 0x2003, 0x2004, 0x2005, 0x2006, 0x2007,
                          0x2008, 0x2009, 0x200A,
                          0x2028, 0x2029, 0x202F, 0x205F, 0x3000])"

definition py_strip :: "pystr \<Rightarrow> pystr" where
  "py_strip s = rev (dropWhile is_space (rev (dropWhile is_space s)))"

definition py_startswith :: "pystr \<Rightarrow> pystr \<Rightarrow> bool" where
  "py_startswith s p = (take (length p) s = p)"

definition py_endswith :: "pystr \<Rightarrow> pystr \<Rightarrow> bool" where
  "py_endswith s p = (length p \<le> length s \<and> drop (length s - length p) s = p)"

text \<open>
  \<open>s.replace(old, new)\<close>: the occurrences of \<open>old\<close> are found from the left and do not
  overlap. An empty \<open>old\<close> matches before every character and at the end.
\<close>

function py_replace :: "pystr \<Rightarrow> pystr \<Rightarrow> pystr \<Rightarrow> pystr" where
  "py_replace old new [] = (if old = [] then new else [])"
| "py_replace old new (c # cs) =
     (if old = [] then new @ c # py_replace old new cs
      else if take (length old) (c # cs) = old
        then new @ py_replace old new (drop (length old) (c # cs))
        else c # py_replace old new cs)"
  by pat_completeness auto
termination
  by (relation "measure (\<lambda>(old, new, s). length s)") (auto simp: neq_Nil_conv)

text \<open>
  \<open>s.split(sep)\<close> for a separator of one character (the nodes split on a line feed and
  on a comma): the pieces between the separators, the empty ones too; at least one piece.
\<close>

fun py_split :: "codepoint \<Rightarrow> pystr \<Rightarrow> pystr list" where
  "py_split sep [] = [[]]"
| "py_split sep (c # cs) =
     (if c = sep then [] # py_split sep cs
      else (case py_split sep cs of [] \<Rightarrow> [[c]] | w # ws \<Rightarrow> (c # w) # ws))"

fun py_join :: "pystr \<Rightarrow> pystr list \<Rightarrow> pystr" where
  "py_join sep [] = []"
| "py_join sep [x] = x"
| "py_join sep (x # y # ys) = x @ sep @ py_join sep (y # ys)"

text \<open>
  \<open>xs[i]\<close> for a list: a negative index counts from the end, an index out of range
  raises \<open>IndexError\<close>.
\<close>

definition py_getitem :: "'a list \<Rightarrow> int \<Rightarrow> py_error + 'a" where
  "py_getitem xs i =
     (if 0 \<le> i \<and> i < int (length xs) then Inr (xs ! nat i)
      else if i < 0 \<and> - int (length xs) \<le> i then Inr (xs ! nat (i + int (length xs)))
      else Inl IndexError)"

subsection \<open>\<open>int(s)\<close> for a string\<close>

text \<open>
  \<open>int(s)\<close> in base 10: surrounding whitespace is dropped, one sign is allowed, then
  decimal digits, where single underscores may stand between two digits. Anything else
  raises \<open>ValueError\<close>. Python reads the decimal digits of every script: beyond ASCII
  their values come from the Unicode database of the interpreter, which is the
  parameter \<open>dec\<close> here.
\<close>

definition digit_val :: "(codepoint \<Rightarrow> nat option) \<Rightarrow> codepoint \<Rightarrow> nat option" where
  "digit_val dec c =
     (if 48 \<le> c \<and> c \<le> 57 then Some (c - 48) else if c < 128 then None else dec c)"

fun parse_digits :: "(codepoint \<Rightarrow> nat option) \<Rightarrow> nat \<Rightarrow> pystr \<Rightarrow> nat option" where
  "parse_digits dec acc [] = Some acc"
| "parse_digits dec acc [c] =
     (case digit_val dec c of Some d \<Rightarrow> Some (acc * 10 + d) | None \<Rightarrow> None)"
| "parse_digits dec acc (c # c' # cs) =
     (case digit_val dec c of
        Some d \<Rightarrow> parse_digits dec (acc * 10 + d) (c' # cs)
      | None \<Rightarrow>
          if c = UNDERSCORE then
            (case digit_val dec c' of
               Some d \<Rightarrow> parse_digits dec (acc * 10 + d) cs
             | None \<Rightarrow> None)
          else None)"

definition parse_unsigned :: "(codepoint \<Rightarrow> nat option) \<Rightarrow> pystr \<Rightarrow> nat option" where
  "parse_unsigned dec s =
     (case s of
        [] \<Rightarrow> None
      | c # cs \<Rightarrow> (case digit_val dec c of None \<Rightarrow> None | Some d \<Rightarrow> parse_digits dec d cs))"

definition py_int :: "(codepoint \<Rightarrow> nat option) \<Rightarrow> pystr \<Rightarrow> py_error + int" where
  "py_int dec s =
     (let t = py_strip s;
          (neg, body) = (case t of
                           [] \<Rightarrow> (False, [])
                         | c # cs \<Rightarrow> if c = MINUS then (True, cs)
                                     else if c = PLUS then (False, cs)
                                     else (False, t))
      in case parse_unsigned dec body of
           None \<Rightarrow> Inl ValueError
         | Some n \<Rightarrow> Inr (if neg then - int n else int n))"

section \<open>nodes/text.py\<close>

definition normalize_text_lines :: "pystr \<Rightarrow> pystr list" where
  "normalize_text_lines text =
     py_split LF (py_replace [CR] [LF] (py_replace [CR, LF] [LF] text))"

text \<open>
  The lines of a text as the description of the node counts them: a line ends at a
  carriage return followed by a line feed, at a carriage return alone, or at a line
  feed; what follows the last line break is a line too, also when it is empty.
\<close>

fun text_lines :: "pystr \<Rightarrow> pystr list" where
  "text_lines [] = [[]]"
| "text_lines (c # cs) =
     (if c = CR then (case cs of
                        [] \<Rightarrow> [[], []]
                      | c' # cs' \<Rightarrow> if c' = LF then [] # text_lines cs' else [] # text_lines cs)
      else if c = LF then [] # text_lines cs
      else (case text_lines cs of [] \<Rightarrow> [[c]] | l # ls \<Rightarrow> (c # l) # ls))"

text \<open>The warning sign that starts the message of \<open>select_line\<close>: U+26A0 U+FE0F.\<close>

definition warning_sign :: pystr where
  "warning_sign = [0x26A0, 0xFE0F]"

definition select_line :: "pystr \<Rightarrow> int \<Rightarrow> py_error + pystr" where
  "select_line text line_index =
     (let lines = normalize_text_lines text in
      if line_index < 0 \<or> line_index \<ge> int (length lines) then
        Inr (warning_sign @ ascii '' Line index '' @ py_str line_index
               @ ascii '' out of range (0-'' @ py_str (int (length lines) - 1) @ ascii '')'')
      else py_getitem lines line_index)"

section \<open>nodes/math.py\<close>

text \<open>
  \<open>MF_ModuloAdvanced.apply_modulo_advanced\<close>: Python's \<open>%\<close> and \<open>//\<close> on integers are
  floor division and its remainder, which is what \<open>div\<close> and \<open>mod\<close> are on \<open>int\<close>; a
  zero divisor raises. The record is the \<open>result\<close> tuple of the returned dictionary.
\<close>

record modulo_result =
  modulo_result_int :: int
  modulo_result_string :: pystr
  cycle_count_int :: int
  cycle_count_string :: pystr

definition apply_modulo_advanced :: "int \<Rightarrow> int \<Rightarrow> py_error + modulo_result" where
  "apply_modulo_advanced input_number modulo_value =
     (if modulo_value = 0 then Inl ZeroDivisionError
      else
        let modulo_res = input_number mod modulo_value;
            cycle_count = input_number div modulo_value
        in Inr \<lparr> modulo_result_int = modulo_res,
                 modulo_result_string = py_str modulo_res,
                 cycle_count_int = cycle_count,
                 cycle_count_string = py_str cycle_count \<rparr>)"

section \<open>nodes/sequencing.py\<close>

subsection \<open>\<open>MF_ShotHelper\<close>\<close>

text \<open>
  The list comprehension \<open>[int(b.strip()) for b in items if b.strip()]\<close>: blank items
  are skipped, and the first item that is not an integer raises.
\<close>

fun int_items :: "(codepoint \<Rightarrow> nat option) \<Rightarrow> pystr list \<Rightarrow> py_error + int list" where
  "int_items dec [] = Inr []"
| "int_items dec (b # bs) =
     (if py_strip b = [] then int_items dec bs
      else (case py_int dec (py_strip b) of
              Inl e \<Rightarrow> Inl e
            | Inr v \<Rightarrow> (case int_items dec bs of Inl e \<Rightarrow> Inl e | Inr vs \<Rightarrow> Inr (v # vs))))"

text \<open>The body of the \<open>try\<close>: brackets off, line feeds to commas, split, parse, sort.\<close>

definition parse_beats :: "(codepoint \<Rightarrow> nat option) \<Rightarrow> pystr \<Rightarrow> py_error + int list" where
  "parse_beats dec beats =
     (let beats_clean = py_strip beats;
          beats_clean = (if py_startswith beats_clean [LBRACKET] \<and> py_endswith beats_clean [RBRACKET]
                         then butlast (tl beats_clean) else beats_clean);
          beats_clean = py_replace [LF] [COMMA] beats_clean
      in case int_items dec (py_split COMMA beats_clean) of
           Inl e \<Rightarrow> Inl e
         | Inr vs \<Rightarrow> Inr (sort vs))"

text \<open>
  \<open>beat_list\<close> after the \<open>try\<close>: a blank string gives no beats, and so does a string
  whose parse raised \<open>ValueError\<close>, the only exception the handler catches.
\<close>

definition beat_list :: "(codepoint \<Rightarrow> nat option) \<Rightarrow> pystr \<Rightarrow> py_error + int list" where
  "beat_list dec beats =
     (if py_strip beats \<noteq> [] then
        (case parse_beats dec beats of
           Inr bs \<Rightarrow> Inr bs
         | Inl e \<Rightarrow> if e = ValueError then Inr [] else Inl e)
      else Inr [])"

text \<open>
  The \<open>for\<close> loop over the sorted beats, with its \<open>break\<close> at the first beat beyond
  \<open>step\<close>; the state is \<open>(sequence_num, shot_start)\<close>.
\<close>

fun beat_loop :: "int \<Rightarrow> int list \<Rightarrow> int \<times> int \<Rightarrow> int \<times> int" where
  "beat_loop step [] (sequence_num, shot_start) = (sequence_num, shot_start)"
| "beat_loop step (beat # rest) (sequence_num, shot_start) =
     (if step \<ge> beat then beat_loop step rest (sequence_num + 1, beat)
      else (sequence_num, shot_start))"

record shot_result =
  sequence_int :: int
  sequence_str :: pystr
  shot_int :: int
  shot_str :: pystr
  shot_name :: pystr

definition calculate_sequence_shot ::
  "(codepoint \<Rightarrow> nat option) \<Rightarrow> int \<Rightarrow> pystr \<Rightarrow> py_error + shot_result" where
  "calculate_sequence_shot dec step beats =
     (case beat_list dec beats of
        Inl e \<Rightarrow> Inl e
      | Inr bl \<Rightarrow>
          let (sequence_num, shot_start) = beat_loop step bl (1, 0);
              shot_num = step - shot_start + 1
          in Inr \<lparr> sequence_int = sequence_num,
                   sequence_str = py_str sequence_num,
                   shot_int = shot_num,
                   shot_str = py_str shot_num,
                   shot_name = ascii ''seq'' @ format_0wd 2 sequence_num
                                 @ ascii ''_shot'' @ format_0wd 2 shot_num \<rparr>)"

text \<open>
  The three notations of the description, for a list of integers: \<open>3,8,15\<close>, one
  integer per line, and \<open>[3,8,15]\<close>.
\<close>

definition render_comma :: "int list \<Rightarrow> pystr" where
  "render_comma xs = py_join [COMMA] (map py_str xs)"

definition render_lines :: "int list \<Rightarrow> pystr" where
  "render_lines xs = py_join [LF] (map py_str xs)"

definition render_array :: "int list \<Rightarrow> pystr" where
  "render_array xs = [LBRACKET] @ render_comma xs @ [RBRACKET]"

text \<open>
  The characters of a rendered integer: not blank, not a separator, not a bracket.
\<close>

definition plain :: "codepoint \<Rightarrow> bool" where
  "plain c = (\<not> is_space c \<and> c \<noteq> COMMA \<and> c \<noteq> LF \<and> c \<noteq> LBRACKET)"

text \<open>
  A table of decimal digits beyond ASCII with one script in it, the Arabic-Indic
  digits U+0660 to U+0669.
\<close>

definition arabic_indic :: "codepoint \<Rightarrow> nat option" where
  "arabic_indic c = (if 0x660 \<le> c \<and> c \<le> 0x669 then Some (c - 0x660) else None)"

subsection \<open>\<open>MF_StoryDriver\<close>\<close>

text \<open>The module dictionary \<open>_steps\<close>, from project name to the next step.\<close>

type_synonym steps = "pystr \<rightharpoonup> int"

record story_result =
  step_int :: int
  step_str :: pystr
  projectName_out :: pystr
  saveFolder :: pystr
  storySeed_out :: int

record story_output =
  status_display :: pystr
  result :: story_result

definition execute :: "steps \<Rightarrow> pystr \<Rightarrow> int \<Rightarrow> bool \<Rightarrow> story_output \<times> steps" where
  "execute st projectName storySeed randomize_seed_on_reset =
     (let current_step = (case st projectName of None \<Rightarrow> 0 | Some v \<Rightarrow> v);
          st' = st(projectName \<mapsto> current_step + 1);
          project_name_output = py_replace (ascii '' '') (ascii ''_'') projectName;
          save_folder = project_name_output @ ascii ''_'' @ py_str storySeed;
          status_text = ascii ''Step: '' @ py_str current_step @ ascii '' | Seed: ''
                          @ py_str storySeed
      in (\<lparr> status_display = status_text,
            result = \<lparr> step_int = current_step,
                       step_str = py_str current_step,
                       projectName_out = project_name_output,
                       saveFolder = save_folder,
                       storySeed_out = storySeed \<rparr> \<rparr>,
          st'))"

definition reset_project :: "steps \<Rightarrow> pystr \<Rightarrow> steps" where
  "reset_project st project_name = st(project_name \<mapsto> 0)"

text \<open>
  A run of the counter: calls of \<open>execute\<close> and \<open>reset_project\<close> in any order, for any
  projects. \<open>run_story\<close> returns the dictionary after the calls.
\<close>

datatype story_call = Execute pystr int bool | ResetProject pystr

fun story_step :: "steps \<Rightarrow> story_call \<Rightarrow> steps" where
  "story_step st (Execute p seed r) = snd (execute st p seed r)"
| "story_step st (ResetProject p) = reset_project st p"

definition run_story :: "steps \<Rightarrow> story_call list \<Rightarrow> steps" where
  "run_story st calls = foldl story_step st calls"

definition executes_of :: "pystr \<Rightarrow> story_call list \<Rightarrow> nat" where
  "executes_of p calls = length (filter (\<lambda>c. case c of Execute q _ _ \<Rightarrow> q = p | ResetProject _ \<Rightarrow> False) calls)"

definition resets :: "pystr \<Rightarrow> story_call list \<Rightarrow> bool" where
  "resets p calls = (ResetProject p \<in> set calls)"

section \<open>JSON values\<close>

text \<open>
  What \<open>json.loads\<close> returns for a request body. A number with a fraction or an
  exponent is a float: of it the nodes observe whether it is zero, and the text that
  \<open>json.dump\<close> writes for it as a dictionary key.
\<close>

datatype json =
    JNull
  | JBool bool
  | JInt int
  | JFloat bool pystr
  | JString pystr
  | JList "json list"
  | JObject "(pystr \<times> json) list"


text \<open>A list or a dictionary cannot be a dictionary key: using it as one raises \<open>TypeError\<close>.\<close>

fun hashable :: "json \<Rightarrow> bool" where
  "hashable (JList vs) = False"
| "hashable (JObject kvs) = False"
| "hashable v = True"

text \<open>The key that \<open>json.dump\<close> writes for a dictionary key that is not a string.\<close>

fun key_text :: "json \<Rightarrow> pystr" where
  "key_text (JString s) = s"
| "key_text (JInt n) = py_str n"
| "key_text (JBool b) = (if b then ascii ''true'' else ascii ''false'')"
| "key_text (JFloat is_zero repr) = repr"
| "key_text v = ascii ''null''"


section \<open>nodes/visualization.py\<close>

text \<open>
  The persisted state: a dictionary from node identifier to the two lists of a node,
  kept as JSON in the file \<open>graph_plotter_state.json\<close>. The file is absent, or holds
  something \<open>json.load\<close> rejects, or holds JSON that is not a dictionary (which only
  another writer can have put there), or holds the dictionary.
\<close>

record node_data =
  x_data :: "int list"
  y_data :: "int list"

type_synonym graph_state = "pystr \<rightharpoonup> node_data"

datatype graph_file = NoFile | Unparsable | NotDict | StateFile graph_state

text \<open>The dictionary a file holds; none of the other files holds an entry.\<close>

definition stored :: "graph_file \<Rightarrow> graph_state" where
  "stored file = (case file of StateFile state \<Rightarrow> state | _ \<Rightarrow> Map.empty)"

text \<open>
  What the disk does during one call: whether an existing file can be opened and read,
  and what becomes of the write: it goes through, or \<open>open\<close> fails and the file stays
  as it is, or \<open>json.dump\<close> fails on the opened, truncated file.
\<close>

datatype write_outcome = WriteOk | OpenFails | DumpFails

record disk_io =
  read_ok :: bool
  write_outcome :: write_outcome

text \<open>
  \<open>_read_graph_state\<close>: the parsed content of an existing file, and \<open>{}\<close> when there is no
  file or when opening or parsing it raises (the handler prints and goes on).
\<close>

datatype loaded = Dict graph_state | NonDict

definition read_graph_state :: "disk_io \<Rightarrow> graph_file \<Rightarrow> loaded" where
  "read_graph_state io file =
     (case file of
        NoFile \<Rightarrow> Dict Map.empty
      | Unparsable \<Rightarrow> Dict Map.empty
      | NotDict \<Rightarrow> if read_ok io then NonDict else Dict Map.empty
      | StateFile state \<Rightarrow> if read_ok io then Dict state else Dict Map.empty)"

text \<open>\<open>_write_graph_state\<close>: an exception of the write is printed and goes no further.\<close>

definition write_graph_state :: "disk_io \<Rightarrow> graph_state \<Rightarrow> graph_file \<Rightarrow> graph_file" where
  "write_graph_state io state file =
     (case write_outcome io of
        WriteOk \<Rightarrow> StateFile state
      | OpenFails \<Rightarrow> file
      | DumpFails \<Rightarrow> Unparsable)"

record graph_data =
  x_values :: "int list"
  y_values :: "int list"
  node_id :: pystr
  point_count :: int

text \<open>\<open>str(unique_id) if unique_id else "default"\<close>, for an identifier that is a string or \<open>None\<close>.\<close>

definition node_key :: "pystr option \<Rightarrow> pystr" where
  "node_key unique_id =
     (case unique_id of None \<Rightarrow> ascii ''default''
      | Some u \<Rightarrow> if u \<noteq> [] then u else ascii ''default'')"

text \<open>
  \<open>plot_graph\<close>: the node's entry is fetched, or made empty when the dictionary has
  none, both lists grow by one, and the dictionary is written back. A loaded value
  that is not a dictionary makes the membership test or the subscript raise
  \<open>TypeError\<close>, which leaves the method.
\<close>

definition plot_graph ::
  "disk_io \<Rightarrow> int \<Rightarrow> pystr option \<Rightarrow> graph_file \<Rightarrow> py_error + graph_data \<times> graph_file" where
  "plot_graph io Y unique_id file =
     (case read_graph_state io file of
        NonDict \<Rightarrow> Inl TypeError
      | Dict state \<Rightarrow>
          let nid = node_key unique_id;
              nd = (case state nid of None \<Rightarrow> \<lparr>x_data = [], y_data = []\<rparr> | Some nd \<Rightarrow> nd);
              X = int (length (x_data nd)) + 1;
              nd = nd\<lparr>x_data := x_data nd @ [X]\<rparr>;
              nd = nd\<lparr>y_data := y_data nd @ [Y]\<rparr>;
              state = state(nid \<mapsto> nd);
              file = write_graph_state io state file
          in Inr (\<lparr>x_values = x_data nd, y_values = y_data nd, node_id = nid,
                    point_count = int (length (x_data nd))\<rparr>, file))"

text \<open>
  \<open>reset_node_data\<close>: the identifier is whatever the caller passes. One that is not a
  string is written to the file as its key text.
\<close>

definition reset_node_data :: "disk_io \<Rightarrow> json \<Rightarrow> graph_file \<Rightarrow> py_error + graph_file" where
  "reset_node_data io nid file =
     (case read_graph_state io file of
        NonDict \<Rightarrow> Inl TypeError
      | Dict state \<Rightarrow>
          if \<not> hashable nid then Inl TypeError
          else Inr (write_graph_state io
                      (state(key_text nid \<mapsto> \<lparr>x_data = [], y_data = []\<rparr>)) file))"

text \<open>
  The states of the file that calls of \<open>plot_graph\<close> and \<open>reset_node_data\<close> reach from
  the empty state (no file yet, or a file with the empty dictionary), whatever the disk
  does during the calls.
\<close>

inductive reachable :: "graph_file \<Rightarrow> bool" where
  no_file: "reachable NoFile"
| empty_file: "reachable (StateFile Map.empty)"
| plot: "reachable file \<Longrightarrow> plot_graph io Y unique_id file = Inr (ui, file') \<Longrightarrow> reachable file'"
| reset: "reachable file \<Longrightarrow> reset_node_data io nid file = Inr file' \<Longrightarrow> reachable file'"

text \<open>
  The two lists of a node are parallel, and the first counts \<open>1, 2, \<dots>, n\<close>.
\<close>

definition parallel_counted :: "node_data \<Rightarrow> bool" where
  "parallel_counted nd =
     (length (x_data nd) = length (y_data nd)
      \<and> x_data nd = map int [1 ..< Suc (length (x_data nd))])"

text \<open>Every entry of a dictionary is so.\<close>

definition all_counted :: "graph_state \<Rightarrow> bool" where
  "all_counted state = (\<forall>nid nd. state nid = Some nd \<longrightarrow> parallel_counted nd)"

text \<open>The points stored for a node: none when the dictionary has no entry for it.\<close>

definition points_of :: "graph_state \<Rightarrow> pystr \<Rightarrow> node_data" where
  "points_of state nid = (case state nid of None \<Rightarrow> \<lparr>x_data = [], y_data = []\<rparr> | Some nd \<Rightarrow> nd)"

text \<open>A disk that reads and writes without error.\<close>

definition sound_disk :: disk_io where
  "sound_disk = \<lparr>read_ok = True, write_outcome = WriteOk\<rparr>"

section \<open>server/routes.py\<close>




section \<open>nodes/data.py\<close>

text \<open>
  The save and load nodes call the operating system and the \<open>json\<close>, \<open>csv\<close>, \<open>xml\<close> and
  \<open>yaml\<close> libraries. Their calls are parameters of the model (a \<open>host\<close>): each takes
  the state of the world \<open>'w\<close> and returns a value or raises, with the world it leaves.
  An exception has a class, of which the handlers of this module tell four apart (all
  of them are subclasses of \<open>Exception\<close>), and the text that \<open>str(e)\<close> shows.
\<close>

datatype exn_kind = JSONDecodeError | ParseError | RuntimeError | OtherException

datatype py_exception = Raised exn_kind pystr

fun exception_kind :: "py_exception \<Rightarrow> exn_kind" where
  "exception_kind (Raised k t) = k"

fun exception_text :: "py_exception \<Rightarrow> pystr" where
  "exception_text (Raised k t) = t"

type_synonym ('a, 'w) io = "'w \<Rightarrow> (py_exception + 'a) \<times> 'w"

definition io_return :: "'a \<Rightarrow> ('a, 'w) io" where
  "io_return x w = (Inr x, w)"

definition io_raise :: "py_exception \<Rightarrow> ('a, 'w) io" where
  "io_raise e w = (Inl e, w)"

definition io_lift :: "py_exception + 'a \<Rightarrow> ('a, 'w) io" where
  "io_lift r w = (r, w)"

text \<open>Two statements in a row: the second runs when the first did not raise.\<close>

definition io_bind :: "('a, 'w) io \<Rightarrow> ('a \<Rightarrow> ('b, 'w) io) \<Rightarrow> ('b, 'w) io" where
  "io_bind m f w = (case m w of (Inl e, w') \<Rightarrow> (Inl e, w') | (Inr x, w') \<Rightarrow> f x w')"

text \<open>
  \<open>try: body except C as e: handler\<close>, with \<open>caught\<close> the exceptions of class \<open>C\<close>. An
  exception of another class, and one that the handler raises, leaves the statement.
\<close>

definition io_except ::
  "('a, 'w) io \<Rightarrow> (py_exception \<Rightarrow> bool) \<Rightarrow> (py_exception \<Rightarrow> ('a, 'w) io) \<Rightarrow> ('a, 'w) io" where
  "io_except body caught handler w =
     (case body w of
        (Inl e, w') \<Rightarrow> if caught e then handler e w' else (Inl e, w')
      | (Inr x, w') \<Rightarrow> (Inr x, w'))"

text \<open>
  The host: \<open>'j\<close> is a parsed JSON or YAML value, \<open>'x\<close> an XML element, \<open>'h\<close> an open CSV
  file with its writer. A function that takes a path opens the file itself.
  \<open>os_seps\<close> are the characters that separate the directories of a path, and
  \<open>str_lower_unicode\<close> is \<open>str.lower\<close> on a string that is not pure ASCII.
\<close>

record ('w, 'j, 'x, 'h) host =
  has_yaml :: bool
  os_seps :: "codepoint list"
  str_lower_unicode :: "pystr \<Rightarrow> pystr"
  os_makedirs :: "pystr \<Rightarrow> (unit, 'w) io"
  os_path_join :: "pystr \<Rightarrow> pystr \<Rightarrow> pystr"
  os_path_exists :: "pystr \<Rightarrow> 'w \<Rightarrow> bool"
  file_write :: "pystr \<Rightarrow> pystr \<Rightarrow> (unit, 'w) io"
  file_read :: "pystr \<Rightarrow> (pystr, 'w) io"
  json_loads :: "pystr \<Rightarrow> py_exception + 'j"
  json_dumps :: "'j \<Rightarrow> py_exception + pystr"
  json_dump_file :: "'j \<Rightarrow> pystr \<Rightarrow> (unit, 'w) io"
  json_load_file :: "pystr \<Rightarrow> ('j, 'w) io"
  xml_fromstring :: "pystr \<Rightarrow> py_exception + 'x"
  xml_data_element :: "pystr \<Rightarrow> 'x"
  xml_write_file :: "'x \<Rightarrow> pystr \<Rightarrow> (unit, 'w) io"
  xml_parse_file :: "pystr \<Rightarrow> ('x, 'w) io"
  xml_tostring :: "'x \<Rightarrow> py_exception + pystr"
  csv_open :: "pystr \<Rightarrow> ('h, 'w) io"
  csv_write_parsed :: "'j \<Rightarrow> pystr \<Rightarrow> 'h \<Rightarrow> (unit, 'w) io"
  csv_writerow :: "pystr \<Rightarrow> 'h \<Rightarrow> (unit, 'w) io"
  csv_read_file :: "pystr \<Rightarrow> ('j, 'w) io"
  yaml_dump_file :: "'j \<Rightarrow> pystr \<Rightarrow> (unit, 'w) io"
  yaml_load_file :: "pystr \<Rightarrow> ('j, 'w) io"

subsection \<open>Paths and letters\<close>

text \<open>
  \<open>os.path.splitext\<close>: the extension starts at the last dot of the last component of
  the path, unless only dots stand before it there.
\<close>

definition py_splitext :: "codepoint list \<Rightarrow> pystr \<Rightarrow> pystr \<times> pystr" where
  "py_splitext seps p =
     (let base = rev (takeWhile (\<lambda>c. c \<notin> set seps) (rev p));
          tail = rev (takeWhile (\<lambda>c. c \<noteq> DOT) (rev base));
          stem = take (length base - Suc (length tail)) base
      in if DOT \<in> set base \<and> list_ex (\<lambda>c. c \<noteq> DOT) stem
         then (take (length p - Suc (length tail)) p, DOT # tail)
         else (p, []))"

definition ascii_lower :: "codepoint \<Rightarrow> codepoint" where
  "ascii_lower c = (if 65 \<le> c \<and> c \<le> 90 then c + 32 else c)"

definition py_lower :: "('w, 'j, 'x, 'h) host \<Rightarrow> pystr \<Rightarrow> pystr" where
  "py_lower H s =
     (if list_all (\<lambda>c. c < 128) s then map ascii_lower s else str_lower_unicode H s)"

definition py_lstrip_char :: "codepoint \<Rightarrow> pystr \<Rightarrow> pystr" where
  "py_lstrip_char c s = dropWhile (\<lambda>x. x = c) s"

subsection \<open>\<open>MF_SaveData\<close>\<close>

definition fence :: pystr where
  "fence = [BACKTICK, BACKTICK, BACKTICK]"

text \<open>
  \<open>_clean_markdown_fences\<close>: \<open>lines[0]\<close> is written with its \<open>IndexError\<close>, which the
  result of a split never raises.
\<close>

definition clean_markdown_fences :: "pystr \<Rightarrow> py_exception + pystr" where
  "clean_markdown_fences data =
     (let data = py_strip data in
      if py_startswith data fence then
        (case py_split LF data of
           [] \<Rightarrow> Inl (Raised OtherException (ascii ''list index out of range''))
         | first # others \<Rightarrow>
             let lines = (if py_startswith first fence then others else first # others);
                 lines = (if lines \<noteq> [] \<and> py_strip (last lines) = fence
                          then butlast lines else lines)
             in Inr (py_join [LF] lines))
      else Inr data)"

definition save_json :: "('w, 'j, 'x, 'h) host \<Rightarrow> pystr \<Rightarrow> pystr \<Rightarrow> (unit, 'w) io" where
  "save_json H data filepath =
     io_except
       (io_bind (io_lift (json_loads H data)) (\<lambda>parsed. json_dump_file H parsed filepath))
       (\<lambda>e. exception_kind e = JSONDecodeError)
       (\<lambda>e. file_write H filepath data)"

definition save_xml :: "('w, 'j, 'x, 'h) host \<Rightarrow> pystr \<Rightarrow> pystr \<Rightarrow> (unit, 'w) io" where
  "save_xml H data filepath =
     io_except
       (io_bind (io_lift (xml_fromstring H data)) (\<lambda>root. xml_write_file H root filepath))
       (\<lambda>e. exception_kind e = ParseError)
       (\<lambda>e. xml_write_file H (xml_data_element H data) filepath)"

definition save_csv :: "('w, 'j, 'x, 'h) host \<Rightarrow> pystr \<Rightarrow> pystr \<Rightarrow> (unit, 'w) io" where
  "save_csv H data filepath =
     io_bind (csv_open H filepath) (\<lambda>f.
       io_except
         (io_bind (io_lift (json_loads H data)) (\<lambda>parsed. csv_write_parsed H parsed data f))
         (\<lambda>e. True)
         (\<lambda>e. csv_writerow H data f))"

definition yaml_missing :: py_exception where
  "yaml_missing = Raised RuntimeError (ascii ''pyyaml is not installed. Run: pip install pyyaml'')"

definition save_yaml :: "('w, 'j, 'x, 'h) host \<Rightarrow> pystr \<Rightarrow> pystr \<Rightarrow> (unit, 'w) io" where
  "save_yaml H data filepath =
     (if \<not> has_yaml H then io_raise yaml_missing
      else
        io_except
          (io_bind (io_lift (json_loads H data)) (\<lambda>parsed. yaml_dump_file H parsed filepath))
          (\<lambda>e. exception_kind e = JSONDecodeError)
          (\<lambda>e. file_write H filepath data))"

text \<open>The body of the \<open>try\<close> of \<open>save_data\<close>.\<close>

definition save_data_try ::
  "('w, 'j, 'x, 'h) host \<Rightarrow> pystr \<Rightarrow> pystr \<Rightarrow> pystr \<Rightarrow> pystr \<Rightarrow> (pystr, 'w) io" where
  "save_data_try H data output_path filename format =
     io_bind (io_lift (clean_markdown_fences data)) (\<lambda>data.
     io_bind (os_makedirs H output_path) (\<lambda>_.
       let filepath = os_path_join H output_path (filename @ ascii ''.'' @ format) in
       io_bind
         (if format = ascii ''json'' then save_json H data filepath
          else if format = ascii ''xml'' then save_xml H data filepath
          else if format = ascii ''csv'' then save_csv H data filepath
          else if format = ascii ''yaml'' then save_yaml H data filepath
          else io_return ())
         (\<lambda>_. io_return filepath)))"

text \<open>What the handler of both nodes returns: \<open>f"Error: {str(e)}"\<close>.\<close>

definition error_string :: "py_exception \<Rightarrow> pystr" where
  "error_string e = ascii ''Error: '' @ exception_text e"

text \<open>\<open>save_data\<close>: the body, and \<open>except Exception as e\<close>, which catches every class.\<close>

definition save_data ::
  "('w, 'j, 'x, 'h) host \<Rightarrow> pystr \<Rightarrow> pystr \<Rightarrow> pystr \<Rightarrow> pystr \<Rightarrow> (pystr, 'w) io" where
  "save_data H data output_path filename format =
     io_except (save_data_try H data output_path filename format)
       (\<lambda>e. True)
       (\<lambda>e. io_return (error_string e))"

subsection \<open>\<open>MF_ReadData\<close>\<close>

definition read_json :: "('w, 'j, 'x, 'h) host \<Rightarrow> pystr \<Rightarrow> (pystr, 'w) io" where
  "read_json H filepath =
     io_bind (json_load_file H filepath) (\<lambda>data. io_lift (json_dumps H data))"

definition read_xml :: "('w, 'j, 'x, 'h) host \<Rightarrow> pystr \<Rightarrow> (pystr, 'w) io" where
  "read_xml H filepath =
     io_bind (xml_parse_file H filepath) (\<lambda>root. io_lift (xml_tostring H root))"

definition read_csv :: "('w, 'j, 'x, 'h) host \<Rightarrow> pystr \<Rightarrow> (pystr, 'w) io" where
  "read_csv H filepath =
     io_bind (csv_read_file H filepath) (\<lambda>data. io_lift (json_dumps H data))"

definition read_yaml :: "('w, 'j, 'x, 'h) host \<Rightarrow> pystr \<Rightarrow> (pystr, 'w) io" where
  "read_yaml H filepath =
     (if \<not> has_yaml H then io_raise yaml_missing
      else io_bind (yaml_load_file H filepath) (\<lambda>data. io_lift (json_dumps H data)))"

text \<open>The extension that selects the reader: \<open>ext.lower().lstrip(".")\<close>.\<close>

definition read_ext :: "('w, 'j, 'x, 'h) host \<Rightarrow> pystr \<Rightarrow> pystr" where
  "read_ext H filename =
     py_lstrip_char DOT (py_lower H (snd (py_splitext (os_seps H) filename)))"

definition read_data_try ::
  "('w, 'j, 'x, 'h) host \<Rightarrow> pystr \<Rightarrow> pystr \<Rightarrow> (pystr, 'w) io" where
  "read_data_try H file_path filename w =
     (let filepath = os_path_join H file_path filename in
      if \<not> os_path_exists H filepath w then (Inr (ascii ''File not found: '' @ filepath), w)
      else
        let ext = read_ext H filename
        in (if ext = ascii ''json'' then read_json H filepath
            else if ext = ascii ''xml'' then read_xml H filepath
            else if ext = ascii ''csv'' then read_csv H filepath
            else if ext \<in> set [ascii ''yaml'', ascii ''yml''] then read_yaml H filepath
            else file_read H filepath) w)"

definition read_data ::
  "('w, 'j, 'x, 'h) host \<Rightarrow> pystr \<Rightarrow> pystr \<Rightarrow> (pystr, 'w) io" where
  "read_data H file_path filename =
     io_except (read_data_try H file_path filename)
       (\<lambda>e. True)
       (\<lambda>e. io_return (error_string e))"

subsection \<open>What the round trip asks of the host\<close>

text \<open>
  The contract of the file system and of the \<open>json\<close> library that a round trip
  through a JSON file rests on:
  \<^item> after \<open>json.dump\<close> of a value to a path has returned, the file exists and holds a
    text that \<open>json.loads\<close> parses to that value;
  \<^item> after a text has been written to a path, the file exists and holds that text;
  \<^item> reading a file leaves the world as it is, and \<open>json.load\<close> is \<open>json.loads\<close> of the
    text of the file;
  \<^item> a parsed value can be written by \<open>json.dumps\<close>, and the text parses to it again;
  \<^item> a text that parses still parses, to the same value, without the whitespace
    around it.
\<close>

definition json_file_contract :: "('w, 'j, 'x, 'h) host \<Rightarrow> bool" where
  "json_file_contract H =
     ((\<forall>j path w w'. json_dump_file H j path w = (Inr (), w') \<longrightarrow>
          os_path_exists H path w'
          \<and> (\<exists>t. file_read H path w' = (Inr t, w') \<and> json_loads H t = Inr j))
      \<and> (\<forall>path t w w'. file_write H path t w = (Inr (), w') \<longrightarrow>
          os_path_exists H path w' \<and> file_read H path w' = (Inr t, w'))
      \<and> (\<forall>path w. json_load_file H path w
                      = io_bind (file_read H path) (\<lambda>t. io_lift (json_loads H t)) w)
      \<and> (\<forall>t j. json_loads H t = Inr j \<longrightarrow>
          (\<exists>s. json_dumps H j = Inr s \<and> json_loads H s = Inr j))
      \<and> (\<forall>t j. json_loads H t = Inr j \<longrightarrow> json_loads H (py_strip t) = Inr j))"

subsection \<open>Hosts to try the nodes on\<close>

text \<open>
  A host whose files are a dictionary from path to text, whose JSON values are the
  integers, and whose paths are joined with a slash. The directory always exists.
\<close>

definition memory_loads :: "pystr \<Rightarrow> py_exception + int" where
  "memory_loads t =
     (case py_int (\<lambda>c. None) t of
        Inl e \<Rightarrow> Inl (Raised JSONDecodeError (ascii ''Expecting value''))
      | Inr n \<Rightarrow> Inr n)"

definition memory_read :: "pystr \<Rightarrow> (pystr, pystr \<rightharpoonup> pystr) io" where
  "memory_read path w =
     (case w path of
        None \<Rightarrow> (Inl (Raised OtherException (ascii ''No such file or directory'')), w)
      | Some t \<Rightarrow> (Inr t, w))"

definition memory_host :: "(pystr \<rightharpoonup> pystr, int, unit, unit) host" where
  "memory_host =
     \<lparr> has_yaml = False,
       os_seps = [47],
       str_lower_unicode = (\<lambda>s. s),
       os_makedirs = (\<lambda>p. io_return ()),
       os_path_join = (\<lambda>a b. a @ [47] @ b),
       os_path_exists = (\<lambda>p w. w p \<noteq> None),
       file_write = (\<lambda>p t w. (Inr (), w(p \<mapsto> t))),
       file_read = memory_read,
       json_loads = memory_loads,
       json_dumps = (\<lambda>n. Inr (py_str n)),
       json_dump_file = (\<lambda>n p w. (Inr (), w(p \<mapsto> py_str n))),
       json_load_file = (\<lambda>p. io_bind (memory_read p) (\<lambda>t. io_lift (memory_loads t))),
       xml_fromstring = (\<lambda>t. Inr ()),
       xml_data_element = (\<lambda>t. ()),
       xml_write_file = (\<lambda>x p. io_return ()),
       xml_parse_file = (\<lambda>p. io_return ()),
       xml_tostring = (\<lambda>x. Inr []),
       csv_open = (\<lambda>p. io_return ()),
       csv_write_parsed = (\<lambda>j t h. io_return ()),
       csv_writerow = (\<lambda>t h. io_return ()),
       csv_read_file = (\<lambda>p. io_return 0),
       yaml_dump_file = (\<lambda>j p. io_return ()),
       yaml_load_file = (\<lambda>p. io_return 0) \<rparr>"

text \<open>The same host with a disk that refuses a new directory, and with a full disk.\<close>

definition refusing_host :: "(pystr \<rightharpoonup> pystr, int, unit, unit) host" where
  "refusing_host =
     memory_host\<lparr>os_makedirs := (\<lambda>p. io_raise (Raised OtherException (ascii ''Permission denied'')))\<rparr>"

definition full_disk_host :: "(pystr \<rightharpoonup> pystr, int, unit, unit) host" where
  "full_disk_host =
     memory_host\<lparr>json_dump_file :=
       (\<lambda>n p. io_raise (Raised OtherException (ascii ''No space left on device'')))\<rparr>"

section \<open>Verified properties\<close>


subsection \<open>Decimal rendering\<close>

lemma str_nat_small: "n < 10 \<Longrightarrow> str_nat n = [digit_char n]"
  by (simp add: str_nat.simps)

lemma str_nat_large: "\<not> n < 10 \<Longrightarrow> str_nat n = str_nat (n div 10) @ [digit_char (n mod 10)]"
  by (subst str_nat.simps) simp

lemma str_nat_nonempty: "str_nat n \<noteq> []"
  by (subst str_nat.simps) simp

lemma str_nat_length_large: "\<not> n < 10 \<Longrightarrow> 2 \<le> length (str_nat n)"
proof -
  assume a: "\<not> n < 10"
  have "str_nat (n div 10) \<noteq> []" by (rule str_nat_nonempty)
  then have "1 \<le> length (str_nat (n div 10))" by (cases "str_nat (n div 10)") auto
  with a show ?thesis by (simp add: str_nat_large)
qed

lemma format_02d_two_digits: "format_0wd 2 n = two_digits n"
proof -
  consider "n < 0" | "0 \<le> n" "n < 10" | "10 \<le> n" by linarith
  then show ?thesis
  proof cases
    case 1
    have "str_nat (nat (- n)) \<noteq> []" by (rule str_nat_nonempty)
    then have "1 \<le> length (str_nat (nat (- n)))" by (cases "str_nat (nat (- n))") auto
    with 1 show ?thesis
      by (simp add: format_0wd_def two_digits_def py_str_def Let_def abs_if)
  next
    case 2
    then have "str_nat (nat n) = [digit_char (nat n)]" by (simp add: str_nat_small)
    with 2 show ?thesis
      by (simp add: format_0wd_def two_digits_def py_str_def Let_def abs_if numeral_2_eq_2)
  next
    case 3
    then have "2 \<le> length (str_nat (nat n))" by (simp add: str_nat_length_large)
    with 3 show ?thesis
      by (simp add: format_0wd_def two_digits_def py_str_def Let_def abs_if)
  qed
qed

subsection \<open>Modulo node\<close>

text \<open>
  C6. For \<open>input_number\<close> in \<open>[-999999, 999999]\<close> and \<open>modulo_value\<close> in \<open>[1, 999999]\<close>,
  \<open>apply_modulo_advanced\<close> returns (it does not raise) a remainder \<open>r\<close> and a cycle count
  \<open>c\<close> with \<open>input_number = c * modulo_value + r\<close> and \<open>0 \<le> r < modulo_value\<close>, also for
  negative \<open>input_number\<close>, and the two string outputs are \<open>str\<close> of the two integers.
\<close>

theorem apply_modulo_advanced_division:
  assumes "- 999999 \<le> input_number" and "input_number \<le> 999999"
    and "1 \<le> modulo_value" and "modulo_value \<le> 999999"
  shows "\<exists>r. apply_modulo_advanced input_number modulo_value = Inr r
           \<and> input_number = cycle_count_int r * modulo_value + modulo_result_int r
           \<and> 0 \<le> modulo_result_int r \<and> modulo_result_int r < modulo_value
           \<and> modulo_result_string r = py_str (modulo_result_int r)
           \<and> cycle_count_string r = py_str (cycle_count_int r)"
  using assms by (simp add: apply_modulo_advanced_def Let_def)

theorem apply_modulo_advanced_division_witness:
  "\<exists>r. apply_modulo_advanced (- 7) 3 = Inr r
     \<and> modulo_result_int r = 2 \<and> cycle_count_int r = - 3
     \<and> modulo_result_string r = ascii ''2'' \<and> cycle_count_string r = ascii ''-3''"
proof -
  obtain r where r: "apply_modulo_advanced (- 7) 3 = Inr r"
    and eq: "(- 7 :: int) = cycle_count_int r * 3 + modulo_result_int r"
    and lo: "0 \<le> modulo_result_int r" and hi: "modulo_result_int r < 3"
    and s1: "modulo_result_string r = py_str (modulo_result_int r)"
    and s2: "cycle_count_string r = py_str (cycle_count_int r)"
    using apply_modulo_advanced_division [of "- 7" 3] by auto
  from eq lo hi have m: "modulo_result_int r = 2" and c: "cycle_count_int r = - 3"
    by presburger+
  have "py_str 2 = ascii ''2''" and "py_str (- 3) = ascii ''-3''"
    by (simp_all add: py_str_def str_nat_small digit_char_def ascii_def)
  with r m c s1 s2 show ?thesis by auto
qed

subsection \<open>Story sequence node\<close>

lemma beat_loop_sorted:
  "sorted bl \<Longrightarrow>
   beat_loop step bl (s, st) =
     (s + int (length (filter (\<lambda>b. b \<le> step) bl)),
      if filter (\<lambda>b. b \<le> step) bl = [] then st else Max (set (filter (\<lambda>b. b \<le> step) bl)))"
proof (induction bl arbitrary: s st)
  case Nil
  then show ?case by simp
next
  case (Cons beat rest)
  from Cons.prems have srt: "sorted rest" and le: "\<forall>b\<in>set rest. beat \<le> b" by simp_all
  show ?case
  proof (cases "beat \<le> step")
    case True
    let ?F = "filter (\<lambda>b. b \<le> step) rest"
    have mx: "Max (set (beat # ?F)) = (if ?F = [] then beat else Max (set ?F))"
    proof (cases "?F = []")
      case True
      then show ?thesis by simp
    next
      case False
      have fin: "finite (set ?F)" by simp
      have ne: "set ?F \<noteq> {}" using False by (simp only: set_empty not_False_eq_True)
      have "Max (set ?F) \<in> set ?F" using fin ne by (rule Max_in)
      then have "beat \<le> Max (set ?F)" using le by auto
      then have "Max (insert beat (set ?F)) = Max (set ?F)"
        using fin ne by (simp add: max_def)
      with False show ?thesis by simp
    qed
    have flt: "filter (\<lambda>b. b \<le> step) (beat # rest) = beat # ?F" using True by simp
    have "beat_loop step (beat # rest) (s, st) = beat_loop step rest (s + 1, beat)"
      using True by simp
    also have "\<dots> = (s + 1 + int (length ?F), if ?F = [] then beat else Max (set ?F))"
      by (rule Cons.IH [OF srt])
    finally show ?thesis
      unfolding flt using mx by simp
  next
    case False
    with le have "filter (\<lambda>b. b \<le> step) rest = []"
      by (auto simp: filter_empty_conv)
    with False show ?thesis by simp
  qed
qed

lemma py_int_error: "py_int dec s = Inl e \<Longrightarrow> e = ValueError"
  by (auto simp: py_int_def Let_def split: prod.splits option.splits)

lemma int_items_error: "int_items dec bs = Inl e \<Longrightarrow> e = ValueError"
  by (induction bs) (auto split: if_splits sum.splits dest: py_int_error)

lemma beat_list_sorted: "\<exists>bl. beat_list dec beats = Inr bl \<and> sorted bl"
proof (cases "py_strip beats \<noteq> []")
  case False
  then show ?thesis by (simp add: beat_list_def)
next
  case True
  show ?thesis
  proof (cases "parse_beats dec beats")
    case (Inl e)
    then have "e = ValueError"
      by (auto simp: parse_beats_def Let_def split: sum.splits dest: int_items_error)
    with Inl True show ?thesis by (simp add: beat_list_def)
  next
    case (Inr bs)
    then have "sorted bs" by (auto simp: parse_beats_def Let_def split: sum.splits)
    with Inr True show ?thesis by (simp add: beat_list_def)
  qed
qed

text \<open>
  C1. For every integer \<open>step\<close> and every beats string (and every table of decimal
  digits beyond ASCII), \<open>calculate_sequence_shot\<close> returns; with \<open>bl\<close> the beats parsed
  from the string (none when the string is blank or does not parse), \<open>sequence_int\<close> is
  1 plus the number of beats \<open>\<le> step\<close>, duplicates counted, \<open>shot_int\<close> is \<open>step\<close> minus
  the largest beat \<open>\<le> step\<close> (0 when there is none) plus 1, \<open>sequence_str\<close> and
  \<open>shot_str\<close> are \<open>str\<close> of the two integers, and \<open>shot_name\<close> is \<open>seqSS_shotNN\<close> with
  both numbers zero-padded to two digits.
\<close>

theorem calculate_sequence_shot_spec:
  "\<exists>bl r. beat_list dec beats = Inr bl \<and> calculate_sequence_shot dec step beats = Inr r
     \<and> sequence_int r = 1 + int (length (filter (\<lambda>b. b \<le> step) bl))
     \<and> shot_int r = step - (if filter (\<lambda>b. b \<le> step) bl = [] then 0
                             else Max (set (filter (\<lambda>b. b \<le> step) bl))) + 1
     \<and> sequence_str r = py_str (sequence_int r)
     \<and> shot_str r = py_str (shot_int r)
     \<and> shot_name r = ascii ''seq'' @ two_digits (sequence_int r) @ ascii ''_shot'' @ two_digits (shot_int r)"
proof -
  obtain bl where bl: "beat_list dec beats = Inr bl" and srt: "sorted bl"
    using beat_list_sorted by blast
  show ?thesis
    using bl beat_loop_sorted [OF srt, of step 1 0]
    by (simp add: calculate_sequence_shot_def Let_def format_02d_two_digits)
qed

theorem calculate_sequence_shot_spec_witness:
  "\<exists>r. calculate_sequence_shot arabic_indic 5 ([0xA0, 0x663] @ ascii '',8'') = Inr r
     \<and> sequence_int r = 2 \<and> shot_int r = 3 \<and> shot_name r = ascii ''seq02_shot03''"
proof -
  let ?beats = "[0xA0, 0x663] @ ascii '',8''"
  have bl: "beat_list arabic_indic ?beats = Inr [3, 8]"
    by (simp add: beat_list_def parse_beats_def py_strip_def is_space_def py_startswith_def
          py_endswith_def py_int_def parse_unsigned_def digit_val_def arabic_indic_def
          ascii_def)
  obtain bl' r where b': "beat_list arabic_indic ?beats = Inr bl'"
    and r: "calculate_sequence_shot arabic_indic 5 ?beats = Inr r"
    and sq: "sequence_int r = 1 + int (length (filter (\<lambda>b. b \<le> 5) bl'))"
    and sh: "shot_int r = 5 - (if filter (\<lambda>b. b \<le> 5) bl' = [] then 0
                               else Max (set (filter (\<lambda>b. b \<le> 5) bl'))) + 1"
    and nm: "shot_name r = ascii ''seq'' @ two_digits (sequence_int r)
                             @ ascii ''_shot'' @ two_digits (shot_int r)"
    using calculate_sequence_shot_spec [of arabic_indic ?beats 5] by blast
  from bl b' have bl': "bl' = [3, 8]" by simp
  from sq sh have v: "sequence_int r = 2" "shot_int r = 3" by (simp_all add: bl')
  have "two_digits 2 = ascii ''02''" and "two_digits 3 = ascii ''03''"
    by (simp_all add: two_digits_def py_str_def str_nat_small digit_char_def ascii_def)
  with nm v have "shot_name r = ascii ''seq02_shot03''" by (simp add: ascii_def)
  with r v show ?thesis by blast
qed

subsection \<open>Story driver node\<close>

lemma run_story_count:
  "st p = Some v \<Longrightarrow> \<not> resets p calls \<Longrightarrow>
   run_story st calls p = Some (v + int (executes_of p calls))"
proof (induction calls arbitrary: st v)
  case Nil
  then show ?case by (simp add: run_story_def executes_of_def)
next
  case (Cons c calls)
  from Cons.prems(2) have nr: "\<not> resets p calls" and c: "c \<noteq> ResetProject p"
    by (auto simp: resets_def)
  show ?case
  proof (cases c)
    case (Execute q seed r)
    show ?thesis
    proof (cases "q = p")
      case True
      have "story_step st c p = Some (v + 1)"
        using Execute True Cons.prems(1) by (simp add: execute_def Let_def)
      from Cons.IH [of "story_step st c" "v + 1", OF this nr] show ?thesis
        using Execute True by (simp add: run_story_def executes_of_def)
    next
      case False
      have "story_step st c p = Some v"
        using Execute False Cons.prems(1) by (simp add: execute_def Let_def)
      from Cons.IH [of "story_step st c" v, OF this nr] show ?thesis
        using Execute False by (simp add: run_story_def executes_of_def)
    qed
  next
    case (ResetProject q)
    with c have "q \<noteq> p" by simp
    then have "story_step st c p = Some v"
      using ResetProject Cons.prems(1) by (simp add: reset_project_def)
    from Cons.IH [of "story_step st c" v, OF this nr] show ?thesis
      using ResetProject by (simp add: run_story_def executes_of_def)
  qed
qed

text \<open>
  C5. The step counter is a dictionary from project name to step. \<open>execute\<close> returns as
  \<open>step_int\<close> the value stored for \<open>projectName\<close> (0 when nothing is stored) and
  stores that step plus 1; \<open>step_str\<close> is \<open>str\<close> of \<open>step_int\<close>; \<open>reset_project\<close> stores
  0. After a reset of a project, and whatever calls follow that do not reset that
  project again, an \<open>execute\<close> for it returns the number of its executes since the
  reset: the k-th one returns k - 1.
\<close>

theorem story_driver_counter:
  "step_int (result (fst (execute st p seed r))) = (case st p of None \<Rightarrow> 0 | Some v \<Rightarrow> v)
   \<and> snd (execute st p seed r) p = Some (step_int (result (fst (execute st p seed r))) + 1)
   \<and> step_str (result (fst (execute st p seed r)))
       = py_str (step_int (result (fst (execute st p seed r))))
   \<and> reset_project st p p = Some 0
   \<and> (\<not> resets p calls \<longrightarrow>
        step_int (result (fst (execute (run_story (reset_project st p) calls) p seed r)))
          = int (executes_of p calls))"
proof -
  have "reset_project st p p = Some 0" by (simp add: reset_project_def)
  from run_story_count [of "reset_project st p" p 0 calls, OF this]
  have "\<not> resets p calls \<Longrightarrow> run_story (reset_project st p) calls p = Some (int (executes_of p calls))"
    by simp
  then show ?thesis
    by (simp add: execute_def Let_def reset_project_def)
qed

theorem story_driver_counter_witness:
  "step_int (result (fst (execute
      (run_story (reset_project [ascii ''A'' \<mapsto> 7] (ascii ''A''))
         [Execute (ascii ''A'') 1 True, Execute (ascii ''B'') 2 False, ResetProject (ascii ''B''), Execute (ascii ''A'') 1 True])
      (ascii ''A'') 1 True))) = 2"
proof -
  have "\<not> resets (ascii ''A'') [Execute (ascii ''A'') 1 True, Execute (ascii ''B'') 2 False, ResetProject (ascii ''B''), Execute (ascii ''A'') 1 True]"
    by (simp add: resets_def ascii_def)
  with story_driver_counter [of "[ascii ''A'' \<mapsto> 7]" "ascii ''A''" 1 True
      "[Execute (ascii ''A'') 1 True, Execute (ascii ''B'') 2 False, ResetProject (ascii ''B''), Execute (ascii ''A'') 1 True]"]
  show ?thesis by (simp add: executes_of_def ascii_def)
qed

subsection \<open>Beat notations\<close>

lemma digit_cases: "d < 10 \<Longrightarrow> d \<in> {0, 1, 2, 3, 4, 5, 6, 7, 8, 9::nat}"
  by auto

lemma digit_val_digit_char: "d < 10 \<Longrightarrow> digit_val dec (digit_char d) = Some d"
  by (drule digit_cases) (auto simp: digit_val_def digit_char_def)

lemma digit_char_plain:
  "d < 10 \<Longrightarrow> \<not> is_space (digit_char d) \<and> digit_char d \<noteq> COMMA
     \<and> digit_char d \<noteq> LF \<and> digit_char d \<noteq> MINUS \<and> digit_char d \<noteq> PLUS
     \<and> digit_char d \<noteq> LBRACKET"
  by (drule digit_cases) (auto simp: is_space_def digit_char_def)

lemma str_nat_digits: "c \<in> set (str_nat n) \<Longrightarrow> \<exists>d<10. c = digit_char d"
proof (induction n arbitrary: c rule: str_nat.induct)
  case (1 n)
  show ?case
  proof (cases "n < 10")
    case True
    with "1.prems" show ?thesis by (auto simp: str_nat_small)
  next
    case False
    with "1.prems" have "c \<in> set (str_nat (n div 10)) \<or> c = digit_char (n mod 10)"
      by (auto simp: str_nat_large)
    then show ?thesis
    proof
      assume "c \<in> set (str_nat (n div 10))" 
      with False "1.IH" show ?thesis by blast
    next
      assume "c = digit_char (n mod 10)"
      moreover have "n mod 10 < 10" by simp
      ultimately show ?thesis by blast
    qed
  qed
qed

lemma str_nat_digit_val: "c \<in> set (str_nat n) \<Longrightarrow> \<exists>d. digit_val dec c = Some d"
  using str_nat_digits digit_val_digit_char by blast

lemma parse_digits_all_digits:
  "(\<And>c. c \<in> set ds \<Longrightarrow> \<exists>d. digit_val dec c = Some d) \<Longrightarrow>
   parse_digits dec acc ds = Some (foldl (\<lambda>a c. a * 10 + the (digit_val dec c)) acc ds)"
proof (induction dec acc ds rule: parse_digits.induct)
  case (1 dec acc)
  show ?case by simp
next
  case (2 dec acc c)
  from "2.prems" [of c] obtain d where "digit_val dec c = Some d" by auto
  then show ?case by simp
next
  case (3 dec acc c c' cs)
  from "3.prems" [of c] obtain d where d: "digit_val dec c = Some d" by auto
  have "parse_digits dec (acc * 10 + d) (c' # cs)
          = Some (foldl (\<lambda>a c. a * 10 + the (digit_val dec c)) (acc * 10 + d) (c' # cs))"
  proof (rule "3.IH"(2) [OF d])
    fix x assume "x \<in> set (c' # cs)"
    then show "\<exists>d. digit_val dec x = Some d" using "3.prems" [of x] by simp
  qed
  with d show ?case by simp
qed

lemma foldl_str_nat:
  "foldl (\<lambda>a c. a * 10 + the (digit_val dec c)) acc (str_nat n) = acc * 10 ^ length (str_nat n) + n"
proof (induction n arbitrary: acc rule: str_nat.induct)
  case (1 n)
  show ?case
  proof (cases "n < 10")
    case True
    then show ?thesis by (simp add: str_nat_small digit_val_digit_char)
  next
    case False
    have m: "n mod 10 < 10" by simp
    have "n div 10 * 10 + n mod 10 = n" by simp
    then show ?thesis
      using False "1.IH" [OF False, of acc] digit_val_digit_char [OF m]
      by (simp add: str_nat_large algebra_simps)
  qed
qed

lemma parse_unsigned_str_nat: "parse_unsigned dec (str_nat n) = Some n"
proof -
  obtain c cs where cs: "str_nat n = c # cs"
    using str_nat_nonempty [of n] by (cases "str_nat n") auto
  have all: "\<And>x. x \<in> set (c # cs) \<Longrightarrow> \<exists>d. digit_val dec x = Some d"
    using str_nat_digit_val [of _ n dec] cs by simp
  then obtain d where d: "digit_val dec c = Some d" by fastforce
  have "parse_digits dec d cs = Some (foldl (\<lambda>a c. a * 10 + the (digit_val dec c)) d cs)"
    using all by (intro parse_digits_all_digits) auto
  also have "foldl (\<lambda>a c. a * 10 + the (digit_val dec c)) d cs
               = foldl (\<lambda>a c. a * 10 + the (digit_val dec c)) 0 (str_nat n)"
    using d cs by simp
  also have "\<dots> = n" by (simp add: foldl_str_nat)
  finally show ?thesis using d cs by (simp add: parse_unsigned_def)
qed

lemma str_nat_plain:
  assumes "c \<in> set (str_nat n)"
  shows "plain c \<and> c \<noteq> MINUS \<and> c \<noteq> PLUS"
proof -
  from assms obtain d where "d < 10" and "c = digit_char d"
    using str_nat_digits by blast
  then show ?thesis
    using digit_char_plain [of d] by (simp add: plain_def)
qed

lemma minus_plain: "plain (MINUS)"
  by (simp add: plain_def is_space_def)

lemma py_str_plain:
  assumes "c \<in> set (py_str n)"
  shows "plain c"
proof (cases "n < 0")
  case True
  with assms have "c = MINUS \<or> c \<in> set (str_nat (nat (- n)))"
    by (simp add: py_str_def)
  then show ?thesis using minus_plain str_nat_plain by blast
next
  case False
  with assms have "c \<in> set (str_nat (nat n))" by (simp add: py_str_def)
  then show ?thesis using str_nat_plain by blast
qed

lemma py_str_nonempty: "py_str n \<noteq> []"
  by (simp add: py_str_def str_nat_nonempty)

lemma py_strip_plain_ends:
  "s \<noteq> [] \<Longrightarrow> \<not> is_space (hd s) \<Longrightarrow> \<not> is_space (last s) \<Longrightarrow> py_strip s = s"
proof -
  assume ne: "s \<noteq> []" and h: "\<not> is_space (hd s)" and l: "\<not> is_space (last s)"
  from ne h have "dropWhile is_space s = s" by (cases s) auto
  moreover from ne l have "dropWhile is_space (rev s) = rev s"
    by (cases "rev s") (auto simp: last_rev [symmetric] hd_rev)
  ultimately show ?thesis by (simp add: py_strip_def)
qed

lemma py_strip_py_str: "py_strip (py_str n) = py_str n"
proof (rule py_strip_plain_ends)
  show ne: "py_str n \<noteq> []" by (rule py_str_nonempty)
  from ne have "hd (py_str n) \<in> set (py_str n)" and "last (py_str n) \<in> set (py_str n)"
    by simp_all
  then show "\<not> is_space (hd (py_str n))" and "\<not> is_space (last (py_str n))"
    using py_str_plain [of _ n] by (auto simp: plain_def)
qed

lemma py_int_py_str: "py_int dec (py_str n) = Inr n"
proof (cases "n < 0")
  case True
  have "py_strip (py_str n) = MINUS # str_nat (nat (- n))"
    using True py_strip_py_str [of n] by (simp add: py_str_def)
  then show ?thesis
    using True by (simp add: py_int_def parse_unsigned_str_nat)
next
  case False
  obtain c cs where cs: "str_nat (nat n) = c # cs"
    using str_nat_nonempty [of "nat n"] by (cases "str_nat (nat n)") auto
  then have "c \<in> set (str_nat (nat n))" by simp
  then have c: "c \<noteq> MINUS" "c \<noteq> PLUS" using str_nat_plain by blast+
  have st: "py_strip (py_str n) = c # cs"
    using False cs py_strip_py_str [of n] by (simp add: py_str_def)
  have "parse_unsigned dec (c # cs) = Some (nat n)"
    using parse_unsigned_str_nat [of dec "nat n"] cs by simp
  then show ?thesis
    using False c st by (simp add: py_int_def)
qed


lemma py_split_nonempty: "py_split sep s \<noteq> []"
  by (induction s) (auto split: list.splits)

lemma py_split_no_sep: "sep \<notin> set w \<Longrightarrow> py_split sep w = [w]"
  by (induction w) auto

lemma py_split_append:
  "sep \<notin> set w \<Longrightarrow> py_split sep (w @ sep # rest) = w # py_split sep rest"
  by (induction w) auto

lemma py_split_join:
  "ss \<noteq> [] \<Longrightarrow> (\<And>s. s \<in> set ss \<Longrightarrow> sep \<notin> set s) \<Longrightarrow>
   py_split sep (py_join [sep] ss) = ss"
proof (induction "[sep]" ss rule: py_join.induct)
  case 1
  then show ?case by simp
next
  case (2 x)
  then show ?case by (simp add: py_split_no_sep)
next
  case (3 x y ys)
  have "py_split sep (py_join [sep] (y # ys)) = y # ys"
    using "3.prems" by (intro "3.hyps") auto
  moreover have "sep \<notin> set x" using "3.prems" by simp
  ultimately show ?case by (simp add: py_split_append)
qed

lemma py_replace_char:
  "py_replace [a] [b] s = map (\<lambda>c. if c = a then b else c) s"
  by (induction s) auto

lemma map_py_join: "map f (py_join sep ss) = py_join (map f sep) (map (map f) ss)"
  by (induction sep ss rule: py_join.induct) auto

lemma set_py_join: "c \<in> set (py_join sep ss) \<Longrightarrow> c \<in> set sep \<or> (\<exists>s\<in>set ss. c \<in> set s)"
  by (induction sep ss rule: py_join.induct) auto

lemma hd_py_join: "x \<noteq> [] \<Longrightarrow> hd (py_join sep (x # xs)) = hd x"
  by (cases xs) auto

lemma py_join_nonempty: "ss \<noteq> [] \<Longrightarrow> last ss \<noteq> [] \<Longrightarrow> py_join sep ss \<noteq> []"
  by (induction sep ss rule: py_join.induct) auto

lemma last_py_join:
  "ss \<noteq> [] \<Longrightarrow> last ss \<noteq> [] \<Longrightarrow> last (py_join sep ss) = last (last ss)"
proof (induction sep ss rule: py_join.induct)
  case (1 sep)
  then show ?case by simp
next
  case (2 sep x)
  then show ?case by simp
next
  case (3 sep x y ys)
  from "3.prems" have l: "last (y # ys) \<noteq> []" by simp
  then have ne: "py_join sep (y # ys) \<noteq> []" by (intro py_join_nonempty) simp_all
  have "last (py_join sep (x # y # ys)) = last (py_join sep (y # ys))"
    using ne by simp
  also have "\<dots> = last (last (y # ys))" using l by (intro "3.IH") simp_all
  finally show ?case by simp
qed

lemma int_items_py_str: "int_items dec (map py_str xs) = Inr xs"
  by (induction xs) (simp_all add: py_strip_py_str py_str_nonempty py_int_py_str)

lemma replace_lines_comma: "py_replace [LF] [COMMA] (render_lines xs) = render_comma xs"
proof -
  let ?f = "\<lambda>c. if c = LF then COMMA else c"
  have "map (map ?f) (map py_str xs) = map py_str xs"
  proof (rule map_idI, rule map_idI)
    fix s c assume "s \<in> set (map py_str xs)" and c: "c \<in> set s"
    then obtain n where "s = py_str n" by auto
    with c have "plain c" using py_str_plain by blast
    then show "?f c = c" by (simp add: plain_def)
  qed
  then have "py_join (map ?f [LF]) (map (map ?f) (map py_str xs))
               = py_join [COMMA] (map py_str xs)"
    by (simp only: list.map refl if_True)
  then show ?thesis
    by (simp only: render_lines_def render_comma_def py_replace_char map_py_join)
qed

lemma render_comma_chars: "c \<in> set (render_comma xs) \<Longrightarrow> c \<noteq> LF"
proof -
  assume "c \<in> set (render_comma xs)"
  then have "c = COMMA \<or> (\<exists>n. c \<in> set (py_str n))"
    unfolding render_comma_def by (auto dest!: set_py_join)
  then show ?thesis using py_str_plain by (auto simp: plain_def)
qed

lemma replace_comma_comma: "py_replace [LF] [COMMA] (render_comma xs) = render_comma xs"
  unfolding py_replace_char
  by (rule map_idI) (auto dest: render_comma_chars)

lemma split_render_comma:
  "xs \<noteq> [] \<Longrightarrow> py_split (COMMA) (render_comma xs) = map py_str xs"
  unfolding render_comma_def
proof (rule py_split_join)
  fix s assume "s \<in> set (map py_str xs)"
  then obtain n where "s = py_str n" by auto
  then show "COMMA \<notin> set s" using py_str_plain [of "COMMA" n] by (auto simp: plain_def)
qed simp

lemma items_render_comma:
  "int_items dec (py_split (COMMA) (render_comma xs)) = Inr xs"
proof (cases "xs = []")
  case True
  then show ?thesis by (simp add: render_comma_def py_strip_def)
next
  case False
  then show ?thesis by (simp add: split_render_comma int_items_py_str)
qed


lemma join_py_str_ends:
  assumes "xs \<noteq> []"
  shows "py_join sep (map py_str xs) \<noteq> []"
    and "plain (hd (py_join sep (map py_str xs)))"
    and "plain (last (py_join sep (map py_str xs)))"
proof -
  let ?ss = "map py_str xs"
  from assms obtain x xs' where xs: "xs = x # xs'" by (cases xs) auto
  have ne: "?ss \<noteq> []" using assms by simp
  have l: "last ?ss = py_str (last xs)" using assms by (simp add: last_map)
  then have lne: "last ?ss \<noteq> []" by (simp add: py_str_nonempty)
  show "py_join sep ?ss \<noteq> []" using ne lne by (rule py_join_nonempty)
  have "hd (py_join sep ?ss) = hd (py_str x)"
    using xs by (simp add: hd_py_join py_str_nonempty)
  moreover have "hd (py_str x) \<in> set (py_str x)" by (simp add: py_str_nonempty)
  ultimately show "plain (hd (py_join sep ?ss))" using py_str_plain by simp
  have "last (py_join sep ?ss) = last (py_str (last xs))"
    using last_py_join [OF ne lne] l by simp
  moreover have "last (py_str (last xs)) \<in> set (py_str (last xs))"
    by (simp add: py_str_nonempty)
  ultimately show "plain (last (py_join sep ?ss))" using py_str_plain by simp
qed

lemma plain_rendering_clean:
  assumes "s \<noteq> []" and "plain (hd s)" and "plain (last s)"
  shows "py_strip s = s" and "\<not> py_startswith s [LBRACKET]"
proof -
  show "py_strip s = s"
    using assms by (intro py_strip_plain_ends) (simp_all add: plain_def)
  from assms obtain c cs where "s = c # cs" and "c \<noteq> LBRACKET"
    by (cases s) (auto simp: plain_def)
  then show "\<not> py_startswith s [LBRACKET]" by (simp add: py_startswith_def)
qed

lemma beat_list_render_comma: "beat_list dec (render_comma xs) = Inr (sort xs)"
proof (cases "xs = []")
  case True
  then show ?thesis by (simp add: beat_list_def render_comma_def py_strip_def)
next
  case False
  note e = join_py_str_ends [OF False, of "[COMMA]", folded render_comma_def]
  note c = plain_rendering_clean [OF e]
  have "parse_beats dec (render_comma xs) = Inr (sort xs)"
    by (simp add: parse_beats_def c replace_comma_comma items_render_comma)
  then show ?thesis using e(1) by (simp add: beat_list_def c)
qed

lemma beat_list_render_lines: "beat_list dec (render_lines xs) = Inr (sort xs)"
proof (cases "xs = []")
  case True
  then show ?thesis by (simp add: beat_list_def render_lines_def py_strip_def)
next
  case False
  note e = join_py_str_ends [OF False, of "[LF]", folded render_lines_def]
  note c = plain_rendering_clean [OF e]
  have "parse_beats dec (render_lines xs) = Inr (sort xs)"
    by (simp add: parse_beats_def c replace_lines_comma items_render_comma)
  then show ?thesis using e(1) by (simp add: beat_list_def c)
qed

lemma beat_list_render_array: "beat_list dec (render_array xs) = Inr (sort xs)"
proof -
  let ?s = "render_array xs"
  have s: "?s = LBRACKET # render_comma xs @ [RBRACKET]" by (simp add: render_array_def)
  have strip: "py_strip ?s = ?s"
    unfolding s by (rule py_strip_plain_ends) (simp_all add: is_space_def)
  have sw: "py_startswith ?s [LBRACKET]" by (simp add: s py_startswith_def)
  have ew: "py_endswith ?s [RBRACKET]" by (simp add: s py_endswith_def)
  have inner: "butlast (tl ?s) = render_comma xs" by (simp add: s butlast_append)
  have "parse_beats dec ?s = Inr (sort xs)"
    by (simp only: parse_beats_def Let_def strip sw ew inner if_True simp_thms
          replace_comma_comma items_render_comma sum.case)
  then show ?thesis by (simp add: beat_list_def strip) (simp add: s)
qed

text \<open>
  C2. The three beat notations are interchangeable: for every list of integers and
  every step, \<open>calculate_sequence_shot\<close> returns the same outputs for the list written
  with commas, one integer per line, or with commas inside brackets; in all three the
  beats the node works with are the integers of the list, sorted.
\<close>

theorem beat_notations_interchangeable:
  "calculate_sequence_shot dec step (render_comma xs) = calculate_sequence_shot dec step (render_lines xs)
   \<and> calculate_sequence_shot dec step (render_lines xs) = calculate_sequence_shot dec step (render_array xs)
   \<and> beat_list dec (render_comma xs) = Inr (sort xs)
   \<and> beat_list dec (render_lines xs) = Inr (sort xs)
   \<and> beat_list dec (render_array xs) = Inr (sort xs)"
  by (simp add: calculate_sequence_shot_def beat_list_render_comma beat_list_render_lines
        beat_list_render_array)

subsection \<open>Line selection node\<close>

lemma replace_crlf_hit:
  "py_replace [CR, LF] [LF] (CR # LF # r) = LF # py_replace [CR, LF] [LF] r"
  by simp

lemma replace_crlf_miss:
  "c \<noteq> CR \<or> (\<forall>r. cs \<noteq> LF # r) \<Longrightarrow>
   py_replace [CR, LF] [LF] (c # cs) = c # py_replace [CR, LF] [LF] cs"
  by (cases cs) auto

lemma normalize_text_lines_text_lines: "normalize_text_lines t = text_lines t"
proof (induction t rule: text_lines.induct)
  case 1
  show ?case by (simp add: normalize_text_lines_def)
next
  case (2 c cs)
  note IH = "2.IH" [unfolded normalize_text_lines_def py_replace_char]
  show ?case
  proof (cases "c = CR")
    case True
    show ?thesis
    proof (cases cs)
      case Nil
      with True show ?thesis by (simp add: normalize_text_lines_def)
    next
      case (Cons c' cs')
      show ?thesis
      proof (cases "c' = LF")
        case lf: True
        from IH(1) [OF True Cons lf] True Cons lf show ?thesis
          unfolding normalize_text_lines_def py_replace_char by simp
      next
        case nlf: False
        have "py_replace [CR, LF] [LF] (c # cs) = c # py_replace [CR, LF] [LF] cs"
          using Cons nlf by (intro replace_crlf_miss) simp
        with IH(2) [OF True Cons nlf] True Cons nlf show ?thesis
          unfolding normalize_text_lines_def py_replace_char by simp
      qed
    qed
  next
    case False
    have miss: "py_replace [CR, LF] [LF] (c # cs) = c # py_replace [CR, LF] [LF] cs"
      using False by (intro replace_crlf_miss) simp
    show ?thesis
    proof (cases "c = LF")
      case True
      with IH(3) [OF False True] False miss show ?thesis
        unfolding normalize_text_lines_def py_replace_char by simp
    next
      case nl: False
      with IH(4) [OF False nl] False miss show ?thesis
        unfolding normalize_text_lines_def py_replace_char by simp
    qed
  qed
qed

lemma text_lines_nonempty: "text_lines t \<noteq> []"
  by (induction t rule: text_lines.induct) (auto split: list.splits)

text \<open>
  C10. \<open>select_line\<close> never raises. The lines the node selects from are the lines of
  the text: it is cut at every CR LF, at every other CR and at every LF, and there is
  always at least one line. With \<open>n\<close> their number, an index in \<open>[0, n)\<close> selects that
  line, and any other index returns, as the selected line, the warning sign, a blank
  and \<open>Line index i out of range (0-(n-1))\<close>.
\<close>

theorem select_line_returns:
  "normalize_text_lines text = text_lines text
   \<and> text_lines text \<noteq> []
   \<and> select_line text line_index =
       Inr (if 0 \<le> line_index \<and> line_index < int (length (text_lines text))
            then text_lines text ! nat line_index
            else warning_sign @ ascii '' Line index '' @ py_str line_index
                   @ ascii '' out of range (0-''
                   @ py_str (int (length (text_lines text)) - 1) @ ascii '')'')"
proof (intro conjI)
  show "normalize_text_lines text = text_lines text"
    by (rule normalize_text_lines_text_lines)
  show "text_lines text \<noteq> []" by (rule text_lines_nonempty)
  let ?lines = "text_lines text"
  show "select_line text line_index =
       Inr (if 0 \<le> line_index \<and> line_index < int (length ?lines)
            then ?lines ! nat line_index
            else warning_sign @ ascii '' Line index '' @ py_str line_index
                   @ ascii '' out of range (0-'' @ py_str (int (length ?lines) - 1) @ ascii '')'')"
  proof (cases "0 \<le> line_index \<and> line_index < int (length ?lines)")
    case True
    then have "py_getitem ?lines line_index = Inr (?lines ! nat line_index)"
      by (simp add: py_getitem_def)
    with True show ?thesis
      by (simp add: select_line_def Let_def normalize_text_lines_text_lines)
  next
    case False
    then have out: "line_index < 0 \<or> int (length ?lines) \<le> line_index" by linarith
    then have "select_line text line_index =
        Inr (warning_sign @ ascii '' Line index '' @ py_str line_index
               @ ascii '' out of range (0-'' @ py_str (int (length ?lines) - 1) @ ascii '')'')"
      by (simp add: select_line_def Let_def normalize_text_lines_text_lines)
    with False show ?thesis by (simp only: if_False)
  qed
qed

theorem select_line_returns_witness:
  "normalize_text_lines (ascii ''a'' @ [CR, LF] @ ascii ''b'' @ [CR] @ ascii ''c'' @ [LF])
     = [ascii ''a'', ascii ''b'', ascii ''c'', []]
   \<and> select_line (ascii ''a'' @ [CR, LF] @ ascii ''b'' @ [CR] @ ascii ''c'' @ [LF]) 1
     = Inr (ascii ''b'')
   \<and> select_line (ascii ''a'' @ [CR, LF] @ ascii ''b'' @ [CR] @ ascii ''c'' @ [LF]) 4
     = Inr (warning_sign @ ascii '' Line index 4 out of range (0-3)'')"
proof -
  let ?t = "ascii ''a'' @ [CR, LF] @ ascii ''b'' @ [CR] @ ascii ''c'' @ [LF]"
  have l: "text_lines ?t = [ascii ''a'', ascii ''b'', ascii ''c'', []]"
    by (simp add: ascii_def)
  have n: "py_str 4 = ascii ''4''" "py_str 3 = ascii ''3''"
    by (simp_all add: py_str_def str_nat_small digit_char_def ascii_def)
  from select_line_returns [of ?t 1] select_line_returns [of ?t 4]
  show ?thesis unfolding l by (simp add: n) (simp add: ascii_def)
qed

subsection \<open>Graph plotter store\<close>

lemma node_data_updates:
  "(nd :: node_data)\<lparr>x_data := a, y_data := b\<rparr> = \<lparr>x_data = a, y_data = b\<rparr>"
  by (cases nd) simp

lemma read_graph_state_cases:
  "read_graph_state io file = Dict (stored file)
   \<or> read_graph_state io file = Dict Map.empty
   \<or> read_graph_state io file = NonDict"
  by (cases "file") (simp_all add: read_graph_state_def stored_def)

lemma read_graph_state_sound:
  "file \<noteq> NotDict \<Longrightarrow> read_ok io \<Longrightarrow> read_graph_state io file = Dict (stored file)"
  by (cases "file") (simp_all add: read_graph_state_def stored_def)

lemma stored_write_graph_state:
  "stored (write_graph_state io state file) = state
   \<or> stored (write_graph_state io state file) = stored file
   \<or> stored (write_graph_state io state file) = Map.empty"
  by (cases "write_outcome io") (simp_all add: write_graph_state_def stored_def)

lemma plot_graph_result:
  assumes "read_graph_state io file = Dict state"
  shows "plot_graph io Y unique_id file =
     Inr (\<lparr>x_values = x_data (points_of state (node_key unique_id))
                        @ [int (length (x_data (points_of state (node_key unique_id)))) + 1],
           y_values = y_data (points_of state (node_key unique_id)) @ [Y],
           node_id = node_key unique_id,
           point_count = int (length (x_data (points_of state (node_key unique_id)))) + 1\<rparr>,
          write_graph_state io (state(node_key unique_id \<mapsto>
             \<lparr>x_data = x_data (points_of state (node_key unique_id))
                        @ [int (length (x_data (points_of state (node_key unique_id)))) + 1],
              y_data = y_data (points_of state (node_key unique_id)) @ [Y]\<rparr>)) file)"
  using assms
  by (cases "state (node_key unique_id)")
     (simp_all add: plot_graph_def Let_def points_of_def node_data_updates)

lemma parallel_counted_append:
  assumes "parallel_counted nd"
  shows "parallel_counted \<lparr>x_data = x_data nd @ [int (length (x_data nd)) + 1], y_data = y_data nd @ [Y]\<rparr>"
proof -
  let ?n = "length (x_data nd)"
  from assms have len: "?n = length (y_data nd)"
    and xs: "x_data nd = map int [1 ..< Suc ?n]"
    unfolding parallel_counted_def by blast+
  have "[1 ..< Suc (Suc ?n)] = [1 ..< Suc ?n] @ [Suc ?n]" by simp
  then have "map int [1 ..< Suc (Suc ?n)] = map int [1 ..< Suc ?n] @ [int ?n + 1]"
    by (simp only: map_append list.map of_nat_Suc add.commute)
  with xs have "x_data nd @ [int ?n + 1] = map int [1 ..< Suc (Suc ?n)]" by simp
  with len show ?thesis by (simp add: parallel_counted_def del: upt_Suc)
qed

lemma parallel_counted_empty: "parallel_counted \<lparr>x_data = [], y_data = []\<rparr>"
  by (simp add: parallel_counted_def)

lemma all_counted_empty: "all_counted Map.empty"
  by (simp add: all_counted_def)

lemma all_counted_update:
  "all_counted state \<Longrightarrow> parallel_counted nd \<Longrightarrow> all_counted (state(k \<mapsto> nd))"
  by (simp add: all_counted_def)

lemma all_counted_points_of: "all_counted state \<Longrightarrow> parallel_counted (points_of state k)"
  by (cases "state k") (auto simp: all_counted_def points_of_def parallel_counted_empty)

lemma all_counted_loaded:
  assumes "all_counted (stored file)" and "read_graph_state io file = Dict state"
  shows "all_counted state"
  using read_graph_state_cases [of io "file"] assms by (auto simp: all_counted_empty)

lemma all_counted_written:
  assumes "all_counted (stored file)" and "all_counted state"
  shows "all_counted (stored (write_graph_state io state file))"
  using stored_write_graph_state [of io state "file"] assms by (auto simp: all_counted_empty)

lemma reachable_all_counted: "reachable file \<Longrightarrow> all_counted (stored file)"
proof (induction rule: reachable.induct)
  case no_file
  show ?case by (simp add: stored_def all_counted_empty)
next
  case empty_file
  show ?case by (simp add: stored_def all_counted_empty)
next
  case (plot f io Y unique_id ui f')
  show ?case
  proof (cases "read_graph_state io f")
    case NonDict
    with plot.hyps(2) show ?thesis by (simp add: plot_graph_def)
  next
    case (Dict state)
    have st: "all_counted state" using plot.IH Dict by (rule all_counted_loaded)
    let ?k = "node_key unique_id"
    let ?new = "\<lparr>x_data = x_data (points_of state ?k) @ [int (length (x_data (points_of state ?k))) + 1],
                 y_data = y_data (points_of state ?k) @ [Y]\<rparr>"
    have "parallel_counted ?new"
      using all_counted_points_of [OF st] by (rule parallel_counted_append)
    with st have "all_counted (state(?k \<mapsto> ?new))" by (rule all_counted_update)
    with plot.IH have "all_counted (stored (write_graph_state io (state(?k \<mapsto> ?new)) f))"
      by (rule all_counted_written)
    moreover from plot.hyps(2) have "f' = write_graph_state io (state(?k \<mapsto> ?new)) f"
      unfolding plot_graph_result [OF Dict] by simp
    ultimately show ?thesis by simp
  qed
next
  case (reset f io nid f')
  show ?case
  proof (cases "read_graph_state io f")
    case NonDict
    with reset.hyps(2) show ?thesis by (simp add: reset_node_data_def)
  next
    case (Dict state)
    have st: "all_counted state" using reset.IH Dict by (rule all_counted_loaded)
    let ?new = "state(key_text nid \<mapsto> \<lparr>x_data = [], y_data = []\<rparr>)"
    have "all_counted ?new" using st parallel_counted_empty by (rule all_counted_update)
    with reset.IH have "all_counted (stored (write_graph_state io ?new f))"
      by (rule all_counted_written)
    moreover from reset.hyps(2) Dict have "f' = write_graph_state io ?new f"
      by (simp add: reset_node_data_def split: if_splits)
    ultimately show ?thesis by simp
  qed
qed

text \<open>
  C3. In every state reachable from the empty state by calls of \<open>plot_graph\<close> and
  \<open>reset_node_data\<close>, every node entry of the persisted dictionary has
  \<open>len(x_data) = len(y_data)\<close> and \<open>x_data = [1, 2, \<dots>, n]\<close> for \<open>n\<close> its length.
\<close>

theorem reachable_parallel_counted:
  "reachable file \<Longrightarrow> stored file nid = Some nd \<Longrightarrow> parallel_counted nd"
  using reachable_all_counted [of "file"] by (simp add: all_counted_def)

theorem reachable_parallel_counted_witness:
  "reachable (StateFile [ascii ''7'' \<mapsto> \<lparr>x_data = [1, 2], y_data = [5, 9]\<rparr>,
                         ascii ''8'' \<mapsto> \<lparr>x_data = [], y_data = []\<rparr>])
   \<and> parallel_counted \<lparr>x_data = [1, 2], y_data = [5, 9]\<rparr>"
proof -
  let ?f1 = "StateFile [ascii ''7'' \<mapsto> \<lparr>x_data = [1], y_data = [5]\<rparr>]"
  let ?f2 = "StateFile [ascii ''7'' \<mapsto> \<lparr>x_data = [1, 2], y_data = [5, 9]\<rparr>]"
  let ?f3 = "StateFile [ascii ''7'' \<mapsto> \<lparr>x_data = [1, 2], y_data = [5, 9]\<rparr>,
                        ascii ''8'' \<mapsto> \<lparr>x_data = [], y_data = []\<rparr>]"
  let ?lost = "\<lparr>read_ok = True, write_outcome = OpenFails\<rparr>"
  have p1: "plot_graph sound_disk 5 (Some (ascii ''7'')) NoFile
              = Inr (\<lparr>x_values = [1], y_values = [5], node_id = ascii ''7'', point_count = 1\<rparr>, ?f1)"
    by (simp add: plot_graph_def Let_def read_graph_state_def write_graph_state_def node_key_def
          sound_disk_def ascii_def)
  have p1': "plot_graph ?lost 3 (Some (ascii ''7'')) ?f1
              = Inr (\<lparr>x_values = [1, 2], y_values = [5, 3], node_id = ascii ''7'', point_count = 2\<rparr>, ?f1)"
    by (simp add: plot_graph_def Let_def read_graph_state_def write_graph_state_def node_key_def
          ascii_def)
  have p2: "plot_graph sound_disk 9 (Some (ascii ''7'')) ?f1
              = Inr (\<lparr>x_values = [1, 2], y_values = [5, 9], node_id = ascii ''7'', point_count = 2\<rparr>, ?f2)"
    by (simp add: plot_graph_def Let_def read_graph_state_def write_graph_state_def node_key_def
          sound_disk_def ascii_def)
  have p3: "reset_node_data sound_disk (JString (ascii ''8'')) ?f2 = Inr ?f3"
    by (simp add: reset_node_data_def read_graph_state_def write_graph_state_def sound_disk_def)
  have r1: "reachable ?f1" using reachable.no_file p1 by (rule reachable.plot)
  have r1': "reachable ?f1" using r1 p1' by (rule reachable.plot)
  have r2: "reachable ?f2" using r1' p2 by (rule reachable.plot)
  have r3: "reachable ?f3" using r2 p3 by (rule reachable.reset)
  have "stored ?f3 (ascii ''7'') = Some \<lparr>x_data = [1, 2], y_data = [5, 9]\<rparr>"
    by (simp add: stored_def ascii_def)
  with r3 show ?thesis using reachable_parallel_counted by blast
qed

text \<open>
  C4, as the claim states it, fails when the write does not go through: the call
  returns its graph data, with the new point, and the state file is as before.
\<close>

theorem plot_graph_lost_write_counterexample:
  "plot_graph \<lparr>read_ok = True, write_outcome = OpenFails\<rparr> 9 (Some (ascii ''7''))
       (StateFile [ascii ''7'' \<mapsto> \<lparr>x_data = [1], y_data = [5]\<rparr>])
     = Inr (\<lparr>x_values = [1, 2], y_values = [5, 9], node_id = ascii ''7'', point_count = 2\<rparr>,
            StateFile [ascii ''7'' \<mapsto> \<lparr>x_data = [1], y_data = [5]\<rparr>])
   \<and> stored (StateFile [ascii ''7'' \<mapsto> \<lparr>x_data = [1], y_data = [5]\<rparr>]) (ascii ''7'')
       \<noteq> Some \<lparr>x_data = [1, 2], y_data = [5, 9]\<rparr>"
  by (simp add: plot_graph_def Let_def read_graph_state_def write_graph_state_def node_key_def
        stored_def ascii_def)

text \<open>
  C4, amended. When the state file is absent, unparsable or holds a dictionary, and the
  call reads and writes it without error, \<open>plot_graph(Y)\<close> for node \<open>N\<close> returns and
  leaves the prior dictionary (empty for an absent or unparsable file) with one point
  appended to the lists of \<open>N\<close>: \<open>X\<close> = the previous point count of \<open>N\<close> plus 1 at the end
  of \<open>x_data\<close>, \<open>Y\<close> at the end of \<open>y_data\<close>, the earlier points in place; the entry of
  every other node is unchanged.
\<close>

theorem plot_graph_appends_one_point:
  assumes "file \<noteq> NotDict" and "read_ok io" and "write_outcome io = WriteOk"
  shows "\<exists>ui file' nd'.
     plot_graph io Y unique_id file = Inr (ui, file')
     \<and> stored file' (node_key unique_id) = Some nd'
     \<and> x_data nd' = x_data (points_of (stored file) (node_key unique_id))
                      @ [int (length (x_data (points_of (stored file) (node_key unique_id)))) + 1]
     \<and> y_data nd' = y_data (points_of (stored file) (node_key unique_id)) @ [Y]
     \<and> (\<forall>other. other \<noteq> node_key unique_id \<longrightarrow> stored file' other = stored file other)"
proof -
  have "read_graph_state io file = Dict (stored file)"
    using assms(1,2) by (rule read_graph_state_sound)
  then show ?thesis
    unfolding plot_graph_result [OF \<open>read_graph_state io file = Dict (stored file)\<close>]
    using assms(3) by (simp add: write_graph_state_def stored_def)
qed

theorem plot_graph_appends_one_point_witness:
  "\<exists>ui file'.
     plot_graph sound_disk 4 (Some (ascii ''7''))
         (StateFile [ascii ''7'' \<mapsto> \<lparr>x_data = [1, 2], y_data = [5, 9]\<rparr>,
                     ascii ''8'' \<mapsto> \<lparr>x_data = [1], y_data = [3]\<rparr>]) = Inr (ui, file')
     \<and> stored file' (ascii ''7'') = Some \<lparr>x_data = [1, 2, 3], y_data = [5, 9, 4]\<rparr>
     \<and> stored file' (ascii ''8'') = Some \<lparr>x_data = [1], y_data = [3]\<rparr>"
proof -
  let ?f = "StateFile [ascii ''7'' \<mapsto> \<lparr>x_data = [1, 2], y_data = [5, 9]\<rparr>,
                       ascii ''8'' \<mapsto> \<lparr>x_data = [1], y_data = [3]\<rparr>]"
  have k: "node_key (Some (ascii ''7'')) = ascii ''7''" by (simp add: node_key_def ascii_def)
  have old: "points_of (stored ?f) (ascii ''7'') = \<lparr>x_data = [1, 2], y_data = [5, 9]\<rparr>"
    by (simp add: points_of_def stored_def ascii_def)
  have o8: "stored ?f (ascii ''8'') = Some \<lparr>x_data = [1], y_data = [3]\<rparr>"
    by (simp add: stored_def)
  have ne: "ascii ''8'' \<noteq> ascii ''7''" by (simp add: ascii_def)
  have h: "?f \<noteq> NotDict" "read_ok sound_disk" "write_outcome sound_disk = WriteOk"
    by (simp_all add: sound_disk_def)
  from plot_graph_appends_one_point [OF h, of 4 "Some (ascii ''7'')"]
  obtain ui file' nd' where p: "plot_graph sound_disk 4 (Some (ascii ''7'')) ?f = Inr (ui, file')"
    and n: "stored file' (ascii ''7'') = Some nd'"
    and x: "x_data nd' = [1, 2, 3]" and y: "y_data nd' = [5, 9, 4]"
    and fr: "\<forall>other. other \<noteq> ascii ''7'' \<longrightarrow> stored file' other = stored ?f other"
    unfolding k old by auto
  from x y have "nd' = \<lparr>x_data = [1, 2, 3], y_data = [5, 9, 4]\<rparr>" by (cases nd') simp
  moreover from fr ne have "stored file' (ascii ''8'') = stored ?f (ascii ''8'')" by blast
  ultimately show ?thesis using p n o8 by auto
qed

subsection \<open>Reset endpoint\<close>






subsection \<open>Save and load nodes\<close>

lemma clean_markdown_fences_returns: "\<exists>cleaned. clean_markdown_fences data = Inr cleaned"
proof (cases "py_split LF (py_strip data)")
  case Nil
  then show ?thesis using py_split_nonempty [of LF "py_strip data"] by simp
next
  case (Cons first others)
  then show ?thesis by (simp add: clean_markdown_fences_def Let_def)
qed

lemma io_except_all_returns:
  "\<exists>s w'. io_except body (\<lambda>e. True) (\<lambda>e. io_return (error_string e)) w = (Inr s, w')"
proof (cases "body w")
  case (Pair r w')
  then show ?thesis by (cases r) (simp_all add: io_except_def io_return_def)
qed

lemma save_data_after_makedirs:
  assumes "clean_markdown_fences data = Inr c"
    and "os_makedirs H output_path w = (Inr (), w1)"
  shows "save_data H data output_path filename format w =
     io_except
       (io_bind
         (if format = ascii ''json''
            then save_json H c (os_path_join H output_path (filename @ ascii ''.'' @ format))
          else if format = ascii ''xml''
            then save_xml H c (os_path_join H output_path (filename @ ascii ''.'' @ format))
          else if format = ascii ''csv''
            then save_csv H c (os_path_join H output_path (filename @ ascii ''.'' @ format))
          else if format = ascii ''yaml''
            then save_yaml H c (os_path_join H output_path (filename @ ascii ''.'' @ format))
          else io_return ())
         (\<lambda>_. io_return (os_path_join H output_path (filename @ ascii ''.'' @ format))))
       (\<lambda>e. True) (\<lambda>e. io_return (error_string e)) w1"
  using assms
  by (simp add: save_data_def save_data_try_def io_except_def io_bind_def io_lift_def Let_def)

lemma helper_raises:
  assumes "helper w1 = (Inl e, w2)"
  shows "io_except (io_bind helper (\<lambda>_. io_return path)) (\<lambda>e. True)
           (\<lambda>e. io_return (error_string e)) w1 = (Inr (error_string e), w2)"
  using assms by (simp add: io_except_def io_bind_def io_return_def)

lemma formats_differ:
  "ascii ''xml'' \<noteq> ascii ''json''" "ascii ''csv'' \<noteq> ascii ''json''"
  "ascii ''yaml'' \<noteq> ascii ''json''" "ascii ''csv'' \<noteq> ascii ''xml''"
  "ascii ''yaml'' \<noteq> ascii ''xml''" "ascii ''yaml'' \<noteq> ascii ''csv''"
  "ascii ''yml'' \<noteq> ascii ''json''" "ascii ''yml'' \<noteq> ascii ''xml''"
  "ascii ''yml'' \<noteq> ascii ''csv''"
  by (simp_all add: ascii_def)

lemma save_json_raises:
  "json_loads H c = Inr j \<Longrightarrow> json_dump_file H j path w1 = (Inl e, w2) \<Longrightarrow>
     exception_kind e \<noteq> JSONDecodeError \<Longrightarrow> save_json H c path w1 = (Inl e, w2)"
  "json_loads H c = Inr j \<Longrightarrow> json_dump_file H j path w1 = (Inl e0, w2) \<Longrightarrow>
     exception_kind e0 = JSONDecodeError \<Longrightarrow> file_write H path c w2 = (Inl e, w3) \<Longrightarrow>
     save_json H c path w1 = (Inl e, w3)"
  "json_loads H c = Inl e \<Longrightarrow> exception_kind e \<noteq> JSONDecodeError \<Longrightarrow>
     save_json H c path w1 = (Inl e, w1)"
  "json_loads H c = Inl e0 \<Longrightarrow> exception_kind e0 = JSONDecodeError \<Longrightarrow>
     file_write H path c w1 = (Inl e, w2) \<Longrightarrow> save_json H c path w1 = (Inl e, w2)"
  by (simp_all add: save_json_def io_except_def io_bind_def io_lift_def)

lemma save_xml_raises:
  "xml_fromstring H c = Inr root \<Longrightarrow> xml_write_file H root path w1 = (Inl e, w2) \<Longrightarrow>
     exception_kind e \<noteq> ParseError \<Longrightarrow> save_xml H c path w1 = (Inl e, w2)"
  "xml_fromstring H c = Inr root \<Longrightarrow> xml_write_file H root path w1 = (Inl e0, w2) \<Longrightarrow>
     exception_kind e0 = ParseError \<Longrightarrow>
     xml_write_file H (xml_data_element H c) path w2 = (Inl e, w3) \<Longrightarrow>
     save_xml H c path w1 = (Inl e, w3)"
  "xml_fromstring H c = Inl e \<Longrightarrow> exception_kind e \<noteq> ParseError \<Longrightarrow>
     save_xml H c path w1 = (Inl e, w1)"
  "xml_fromstring H c = Inl e0 \<Longrightarrow> exception_kind e0 = ParseError \<Longrightarrow>
     xml_write_file H (xml_data_element H c) path w1 = (Inl e, w2) \<Longrightarrow>
     save_xml H c path w1 = (Inl e, w2)"
  by (simp_all add: save_xml_def io_except_def io_bind_def io_lift_def)

lemma save_csv_raises:
  "csv_open H path w1 = (Inl e, w2) \<Longrightarrow> save_csv H c path w1 = (Inl e, w2)"
  "csv_open H path w1 = (Inr h, w2) \<Longrightarrow> json_loads H c = Inl e0 \<Longrightarrow>
     csv_writerow H c h w2 = (Inl e, w3) \<Longrightarrow> save_csv H c path w1 = (Inl e, w3)"
  "csv_open H path w1 = (Inr h, w2) \<Longrightarrow> json_loads H c = Inr j \<Longrightarrow>
     csv_write_parsed H j c h w2 = (Inl e0, w3) \<Longrightarrow> csv_writerow H c h w3 = (Inl e, w4) \<Longrightarrow>
     save_csv H c path w1 = (Inl e, w4)"
  by (simp_all add: save_csv_def io_except_def io_bind_def io_lift_def)

lemma save_yaml_raises:
  "\<not> has_yaml H \<Longrightarrow> save_yaml H c path w1 = (Inl yaml_missing, w1)"
  "has_yaml H \<Longrightarrow> json_loads H c = Inr j \<Longrightarrow> yaml_dump_file H j path w1 = (Inl e, w2) \<Longrightarrow>
     exception_kind e \<noteq> JSONDecodeError \<Longrightarrow> save_yaml H c path w1 = (Inl e, w2)"
  "has_yaml H \<Longrightarrow> json_loads H c = Inr j \<Longrightarrow> yaml_dump_file H j path w1 = (Inl e0, w2) \<Longrightarrow>
     exception_kind e0 = JSONDecodeError \<Longrightarrow> file_write H path c w2 = (Inl e, w3) \<Longrightarrow>
     save_yaml H c path w1 = (Inl e, w3)"
  "has_yaml H \<Longrightarrow> json_loads H c = Inl e \<Longrightarrow> exception_kind e \<noteq> JSONDecodeError \<Longrightarrow>
     save_yaml H c path w1 = (Inl e, w1)"
  "has_yaml H \<Longrightarrow> json_loads H c = Inl e0 \<Longrightarrow> exception_kind e0 = JSONDecodeError \<Longrightarrow>
     file_write H path c w1 = (Inl e, w2) \<Longrightarrow> save_yaml H c path w1 = (Inl e, w2)"
  by (simp_all add: save_yaml_def io_except_def io_bind_def io_lift_def io_raise_def)

lemma save_data_helper_raises:
  assumes "clean_markdown_fences data = Inr c"
    and "os_makedirs H output_path w = (Inr (), w1)"
  shows
    "format = ascii ''json'' \<Longrightarrow>
       save_json H c (os_path_join H output_path (filename @ ascii ''.'' @ format)) w1 = (Inl e, w2) \<Longrightarrow>
       save_data H data output_path filename format w = (Inr (error_string e), w2)"
    "format = ascii ''xml'' \<Longrightarrow>
       save_xml H c (os_path_join H output_path (filename @ ascii ''.'' @ format)) w1 = (Inl e, w2) \<Longrightarrow>
       save_data H data output_path filename format w = (Inr (error_string e), w2)"
    "format = ascii ''csv'' \<Longrightarrow>
       save_csv H c (os_path_join H output_path (filename @ ascii ''.'' @ format)) w1 = (Inl e, w2) \<Longrightarrow>
       save_data H data output_path filename format w = (Inr (error_string e), w2)"
    "format = ascii ''yaml'' \<Longrightarrow>
       save_yaml H c (os_path_join H output_path (filename @ ascii ''.'' @ format)) w1 = (Inl e, w2) \<Longrightarrow>
       save_data H data output_path filename format w = (Inr (error_string e), w2)"
  unfolding save_data_after_makedirs [OF assms]
  by (simp_all add: helper_raises formats_differ)

lemma save_data_makedirs_raises:
  assumes "os_makedirs H output_path w = (Inl e, w1)"
  shows "save_data H data output_path filename format w = (Inr (error_string e), w1)"
proof -
  obtain c where "clean_markdown_fences data = Inr c"
    using clean_markdown_fences_returns by blast
  with assms show ?thesis
    by (simp add: save_data_def save_data_try_def io_except_def io_bind_def io_lift_def
          io_return_def)
qed

lemma read_data_reader_raises:
  assumes "os_path_exists H (os_path_join H file_path name) w"
  shows
    "read_ext H name = ascii ''json'' \<Longrightarrow>
       read_json H (os_path_join H file_path name) w = (Inl e, w1) \<Longrightarrow>
       read_data H file_path name w = (Inr (error_string e), w1)"
    "read_ext H name = ascii ''xml'' \<Longrightarrow>
       read_xml H (os_path_join H file_path name) w = (Inl e, w1) \<Longrightarrow>
       read_data H file_path name w = (Inr (error_string e), w1)"
    "read_ext H name = ascii ''csv'' \<Longrightarrow>
       read_csv H (os_path_join H file_path name) w = (Inl e, w1) \<Longrightarrow>
       read_data H file_path name w = (Inr (error_string e), w1)"
    "read_ext H name = ascii ''yaml'' \<or> read_ext H name = ascii ''yml'' \<Longrightarrow>
       read_yaml H (os_path_join H file_path name) w = (Inl e, w1) \<Longrightarrow>
       read_data H file_path name w = (Inr (error_string e), w1)"
    "read_ext H name \<notin> set [ascii ''json'', ascii ''xml'', ascii ''csv'', ascii ''yaml'', ascii ''yml''] \<Longrightarrow>
       file_read H (os_path_join H file_path name) w = (Inl e, w1) \<Longrightarrow>
       read_data H file_path name w = (Inr (error_string e), w1)"
  using assms
  by (auto simp: read_data_def read_data_try_def io_except_def io_return_def Let_def
        formats_differ formats_differ [symmetric])

lemma readers_raise:
  "json_load_file H path w = (Inl e, w1) \<Longrightarrow> read_json H path w = (Inl e, w1)"
  "json_load_file H path w = (Inr j, w1) \<Longrightarrow> json_dumps H j = Inl e \<Longrightarrow>
     read_json H path w = (Inl e, w1)"
  "xml_parse_file H path w = (Inl e, w1) \<Longrightarrow> read_xml H path w = (Inl e, w1)"
  "xml_parse_file H path w = (Inr root, w1) \<Longrightarrow> xml_tostring H root = Inl e \<Longrightarrow>
     read_xml H path w = (Inl e, w1)"
  "csv_read_file H path w = (Inl e, w1) \<Longrightarrow> read_csv H path w = (Inl e, w1)"
  "csv_read_file H path w = (Inr j, w1) \<Longrightarrow> json_dumps H j = Inl e \<Longrightarrow>
     read_csv H path w = (Inl e, w1)"
  "\<not> has_yaml H \<Longrightarrow> read_yaml H path w = (Inl yaml_missing, w)"
  "has_yaml H \<Longrightarrow> yaml_load_file H path w = (Inl e, w1) \<Longrightarrow> read_yaml H path w = (Inl e, w1)"
  "has_yaml H \<Longrightarrow> yaml_load_file H path w = (Inr j, w1) \<Longrightarrow> json_dumps H j = Inl e \<Longrightarrow>
     read_yaml H path w = (Inl e, w1)"
  by (simp_all add: read_json_def read_xml_def read_csv_def read_yaml_def io_bind_def
        io_lift_def io_raise_def)

text \<open>
  C8. Failures in file I/O are caught, not propagated. On every host, in every world
  and for every input, \<open>save_data\<close> and \<open>read_data\<close> return a string and raise nothing.
  When a call of the operating system or of a library raises and no format helper
  handles the exception, the string is \<open>Error: \<close> followed by the text of the
  exception: for a directory that cannot be made, for every parser, writer and reader
  of the four formats, for the fallback write after a parse error, and for a missing
  \<open>yaml\<close> module. \<open>read_data\<close> of a file that does not exist returns
  \<open>File not found: \<close> followed by the path.
\<close>

theorem data_io_failures_caught:
  "(let path = os_path_join H output_path (filename @ ascii ''.'' @ format);
        saved = (\<lambda>r w'. save_data H data output_path filename format w = (Inr r, w'));
        source = os_path_join H file_path name;
        loaded = (\<lambda>r w'. read_data H file_path name w = (Inr r, w'))
    in (\<exists>r w'. saved r w')
     \<and> (\<exists>r w'. loaded r w')
     \<and> (os_makedirs H output_path w = (Inl e, w1) \<longrightarrow> saved (error_string e) w1)
     \<and> (clean_markdown_fences data = Inr c \<longrightarrow> os_makedirs H output_path w = (Inr (), w1) \<longrightarrow>
          (format = ascii ''json'' \<longrightarrow>
              (json_loads H c = Inr j \<longrightarrow> json_dump_file H j path w1 = (Inl e, w2) \<longrightarrow>
                 exception_kind e \<noteq> JSONDecodeError \<longrightarrow> saved (error_string e) w2)
            \<and> (json_loads H c = Inr j \<longrightarrow> json_dump_file H j path w1 = (Inl e0, w2) \<longrightarrow>
                 exception_kind e0 = JSONDecodeError \<longrightarrow> file_write H path c w2 = (Inl e, w3) \<longrightarrow>
                 saved (error_string e) w3)
            \<and> (json_loads H c = Inl e \<longrightarrow> exception_kind e \<noteq> JSONDecodeError \<longrightarrow>
                 saved (error_string e) w1)
            \<and> (json_loads H c = Inl e0 \<longrightarrow> exception_kind e0 = JSONDecodeError \<longrightarrow>
                 file_write H path c w1 = (Inl e, w2) \<longrightarrow> saved (error_string e) w2))
        \<and> (format = ascii ''xml'' \<longrightarrow>
              (xml_fromstring H c = Inr root \<longrightarrow> xml_write_file H root path w1 = (Inl e, w2) \<longrightarrow>
                 exception_kind e \<noteq> ParseError \<longrightarrow> saved (error_string e) w2)
            \<and> (xml_fromstring H c = Inr root \<longrightarrow> xml_write_file H root path w1 = (Inl e0, w2) \<longrightarrow>
                 exception_kind e0 = ParseError \<longrightarrow>
                 xml_write_file H (xml_data_element H c) path w2 = (Inl e, w3) \<longrightarrow>
                 saved (error_string e) w3)
            \<and> (xml_fromstring H c = Inl e \<longrightarrow> exception_kind e \<noteq> ParseError \<longrightarrow>
                 saved (error_string e) w1)
            \<and> (xml_fromstring H c = Inl e0 \<longrightarrow> exception_kind e0 = ParseError \<longrightarrow>
                 xml_write_file H (xml_data_element H c) path w1 = (Inl e, w2) \<longrightarrow>
                 saved (error_string e) w2))
        \<and> (format = ascii ''csv'' \<longrightarrow>
              (csv_open H path w1 = (Inl e, w2) \<longrightarrow> saved (error_string e) w2)
            \<and> (csv_open H path w1 = (Inr h, w2) \<longrightarrow> json_loads H c = Inl e0 \<longrightarrow>
                 csv_writerow H c h w2 = (Inl e, w3) \<longrightarrow> saved (error_string e) w3)
            \<and> (csv_open H path w1 = (Inr h, w2) \<longrightarrow> json_loads H c = Inr j \<longrightarrow>
                 csv_write_parsed H j c h w2 = (Inl e0, w3) \<longrightarrow>
                 csv_writerow H c h w3 = (Inl e, w4) \<longrightarrow> saved (error_string e) w4))
        \<and> (format = ascii ''yaml'' \<longrightarrow>
              (\<not> has_yaml H \<longrightarrow> saved (error_string yaml_missing) w1)
            \<and> (has_yaml H \<longrightarrow> json_loads H c = Inr j \<longrightarrow>
                 yaml_dump_file H j path w1 = (Inl e, w2) \<longrightarrow>
                 exception_kind e \<noteq> JSONDecodeError \<longrightarrow> saved (error_string e) w2)
            \<and> (has_yaml H \<longrightarrow> json_loads H c = Inr j \<longrightarrow>
                 yaml_dump_file H j path w1 = (Inl e0, w2) \<longrightarrow>
                 exception_kind e0 = JSONDecodeError \<longrightarrow> file_write H path c w2 = (Inl e, w3) \<longrightarrow>
                 saved (error_string e) w3)
            \<and> (has_yaml H \<longrightarrow> json_loads H c = Inl e \<longrightarrow>
                 exception_kind e \<noteq> JSONDecodeError \<longrightarrow> saved (error_string e) w1)
            \<and> (has_yaml H \<longrightarrow> json_loads H c = Inl e0 \<longrightarrow>
                 exception_kind e0 = JSONDecodeError \<longrightarrow> file_write H path c w1 = (Inl e, w2) \<longrightarrow>
                 saved (error_string e) w2)))
     \<and> (\<not> os_path_exists H source w \<longrightarrow> loaded (ascii ''File not found: '' @ source) w)
     \<and> (os_path_exists H source w \<longrightarrow>
          (read_ext H name = ascii ''json'' \<longrightarrow>
              (json_load_file H source w = (Inl e, w1) \<longrightarrow> loaded (error_string e) w1)
            \<and> (json_load_file H source w = (Inr j, w1) \<longrightarrow> json_dumps H j = Inl e \<longrightarrow>
                 loaded (error_string e) w1))
        \<and> (read_ext H name = ascii ''xml'' \<longrightarrow>
              (xml_parse_file H source w = (Inl e, w1) \<longrightarrow> loaded (error_string e) w1)
            \<and> (xml_parse_file H source w = (Inr root, w1) \<longrightarrow> xml_tostring H root = Inl e \<longrightarrow>
                 loaded (error_string e) w1))
        \<and> (read_ext H name = ascii ''csv'' \<longrightarrow>
              (csv_read_file H source w = (Inl e, w1) \<longrightarrow> loaded (error_string e) w1)
            \<and> (csv_read_file H source w = (Inr j, w1) \<longrightarrow> json_dumps H j = Inl e \<longrightarrow>
                 loaded (error_string e) w1))
        \<and> (read_ext H name = ascii ''yaml'' \<or> read_ext H name = ascii ''yml'' \<longrightarrow>
              (\<not> has_yaml H \<longrightarrow> loaded (error_string yaml_missing) w)
            \<and> (has_yaml H \<longrightarrow> yaml_load_file H source w = (Inl e, w1) \<longrightarrow>
                 loaded (error_string e) w1)
            \<and> (has_yaml H \<longrightarrow> yaml_load_file H source w = (Inr j, w1) \<longrightarrow>
                 json_dumps H j = Inl e \<longrightarrow> loaded (error_string e) w1))
        \<and> (read_ext H name \<notin> set [ascii ''json'', ascii ''xml'', ascii ''csv'',
                                     ascii ''yaml'', ascii ''yml''] \<longrightarrow>
              file_read H source w = (Inl e, w1) \<longrightarrow> loaded (error_string e) w1)))"
  unfolding Let_def
proof (intro conjI impI)
  show "\<exists>r w'. save_data H data output_path filename format w = (Inr r, w')"
    unfolding save_data_def by (rule io_except_all_returns)
  show "\<exists>r w'. read_data H file_path name w = (Inr r, w')"
    unfolding read_data_def by (rule io_except_all_returns)
  show "\<not> os_path_exists H (os_path_join H file_path name) w \<Longrightarrow>
        read_data H file_path name w
          = (Inr (ascii ''File not found: '' @ os_path_join H file_path name), w)"
    by (simp add: read_data_def read_data_try_def io_except_def Let_def)
qed (blast intro: save_data_makedirs_raises save_data_helper_raises save_json_raises
       save_xml_raises save_csv_raises save_yaml_raises read_data_reader_raises
       readers_raise)+

theorem data_io_failures_caught_witness:
  "save_data refusing_host (ascii ''[1]'') (ascii ''output'') (ascii ''data'') (ascii ''json'')
       Map.empty
     = (Inr (ascii ''Error: Permission denied''), Map.empty)
   \<and> save_data full_disk_host (ascii '' 42 '') (ascii ''output'') (ascii ''data'')
       (ascii ''json'') Map.empty
     = (Inr (ascii ''Error: No space left on device''), Map.empty)
   \<and> read_data memory_host (ascii ''output'') (ascii ''data.json'') Map.empty
     = (Inr (ascii ''File not found: output/data.json''), Map.empty)"
proof -
  let ?denied = "Raised OtherException (ascii ''Permission denied'')"
  let ?full = "Raised OtherException (ascii ''No space left on device'')"
  have a: "save_data refusing_host (ascii ''[1]'') (ascii ''output'') (ascii ''data'')
             (ascii ''json'') Map.empty = (Inr (error_string ?denied), Map.empty)"
    using data_io_failures_caught [where H = refusing_host and data = "ascii ''[1]''"
        and output_path = "ascii ''output''" and filename = "ascii ''data''"
        and format = "ascii ''json''" and w = Map.empty and e = ?denied and ?w1.0 = Map.empty]
    by (simp add: Let_def refusing_host_def io_raise_def)
  have c: "clean_markdown_fences (ascii '' 42 '') = Inr (ascii ''42'')"
    by (simp add: clean_markdown_fences_def py_strip_def is_space_def py_startswith_def
          fence_def ascii_def)
  have l: "json_loads full_disk_host (ascii ''42'') = Inr 42"
    by (simp add: full_disk_host_def memory_host_def memory_loads_def py_int_def py_strip_def
          is_space_def parse_unsigned_def digit_val_def ascii_def)
  have b: "save_data full_disk_host (ascii '' 42 '') (ascii ''output'') (ascii ''data'')
             (ascii ''json'') Map.empty = (Inr (error_string ?full), Map.empty)"
    using data_io_failures_caught [where H = full_disk_host and data = "ascii '' 42 ''"
        and output_path = "ascii ''output''" and filename = "ascii ''data''"
        and format = "ascii ''json''" and w = Map.empty and c = "ascii ''42''"
        and ?w1.0 = Map.empty and j = 42 and e = ?full and ?w2.0 = Map.empty] c l
    by (simp add: Let_def full_disk_host_def memory_host_def io_raise_def io_return_def)
  have d: "read_data memory_host (ascii ''output'') (ascii ''data.json'') Map.empty
     = (Inr (ascii ''File not found: '' @ ascii ''output/data.json''), Map.empty)"
    using data_io_failures_caught [where H = memory_host and file_path = "ascii ''output''"
        and name = "ascii ''data.json''" and w = Map.empty]
    by (simp add: Let_def memory_host_def) (simp add: ascii_def)
  from a b d show ?thesis by (simp add: error_string_def) (simp add: ascii_def)
qed

subsection \<open>Round trip through a JSON file\<close>

lemma py_strip_idem: "py_strip (py_strip s) = py_strip s"
proof -
  let ?v = "dropWhile is_space s"
  let ?u = "py_strip s"
  have u: "rev ?u = dropWhile is_space (rev ?v)" by (simp add: py_strip_def)
  have trail: "dropWhile is_space (rev ?u) = rev ?u" by (simp add: u)
  have "rev ?v = takeWhile is_space (rev ?v) @ dropWhile is_space (rev ?v)" by simp
  then have "rev (rev ?v) = rev (takeWhile is_space (rev ?v) @ rev ?u)" by (simp only: u)
  then have v: "?v = ?u @ rev (takeWhile is_space (rev ?v))" by simp
  have front: "dropWhile is_space ?u = ?u"
  proof (cases ?u)
    case Nil
    then show ?thesis by simp
  next
    case (Cons x xs)
    with v have "?v = x # xs @ rev (takeWhile is_space (rev ?v))" by simp
    then have "\<not> is_space x" using hd_dropWhile [of is_space s] by (cases ?v) auto
    with Cons show ?thesis by simp
  qed
  have "py_strip ?u = rev (dropWhile is_space (rev (dropWhile is_space ?u)))"
    by (simp only: py_strip_def)
  also have "\<dots> = rev (dropWhile is_space (rev ?u))" by (simp only: front)
  also have "\<dots> = ?u" by (simp only: trail rev_rev_ident)
  finally show ?thesis .
qed

lemma py_int_py_strip: "py_int dec (py_strip s) = py_int dec s"
  by (simp add: py_int_def py_strip_idem)

lemma ascii_append: "ascii a @ ascii b = ascii (a @ b)"
  by (simp add: ascii_def)

lemma py_splitext_json:
  "snd (py_splitext seps (f @ ascii ''.json'')) = ascii ''.json''
   \<or> snd (py_splitext seps (f @ ascii ''.json'')) = []"
proof (cases "\<exists>c \<in> set (ascii ''.json''). c \<in> set seps")
  case True
  then have "DOT \<notin> set (rev (takeWhile (\<lambda>c. c \<notin> set seps) (rev (f @ ascii ''.json''))))"
    by (auto simp: ascii_def)
  then show ?thesis by (simp add: py_splitext_def Let_def)
next
  case False
  then have base: "rev (takeWhile (\<lambda>c. c \<notin> set seps) (rev (f @ ascii ''.json'')))
                     = rev (takeWhile (\<lambda>c. c \<notin> set seps) (rev f)) @ ascii ''.json''"
    by (simp add: ascii_def)
  have "rev (takeWhile (\<lambda>c. c \<noteq> DOT)
              (rev (rev (takeWhile (\<lambda>c. c \<notin> set seps) (rev f)) @ ascii ''.json'')))
          = ascii ''json''"
    by (simp add: ascii_def)
  then show ?thesis
    unfolding py_splitext_def Let_def base by (simp add: ascii_def)
qed

lemma read_ext_json:
  "read_ext H (f @ ascii ''.json'') = ascii ''json'' \<or> read_ext H (f @ ascii ''.json'') = []"
proof -
  have "py_lstrip_char DOT (py_lower H (ascii ''.json'')) = ascii ''json''"
    by (simp add: py_lstrip_char_def py_lower_def ascii_lower_def ascii_def)
  moreover have "py_lstrip_char DOT (py_lower H []) = []"
    by (simp add: py_lstrip_char_def py_lower_def)
  ultimately show ?thesis
    using py_splitext_json [of "os_seps H" f] by (auto simp: read_ext_def)
qed

lemma clean_unfenced:
  "\<not> py_startswith (py_strip d) fence \<Longrightarrow> clean_markdown_fences d = Inr (py_strip d)"
  by (simp add: clean_markdown_fences_def Let_def)

lemma save_json_returns:
  assumes "json_loads H c = Inr j" and "save_json H c path w1 = (Inr (), w')"
  shows "json_dump_file H j path w1 = (Inr (), w')
         \<or> (\<exists>w2. file_write H path c w2 = (Inr (), w'))"
  using assms
  by (auto simp: save_json_def io_except_def io_bind_def io_lift_def
           split: prod.splits sum.splits if_splits)

lemma save_data_try_json_returns:
  assumes "clean_markdown_fences d = Inr c"
    and "save_data_try H d p f (ascii ''json'') w = (Inr path, w')"
  shows "path = os_path_join H p (f @ ascii ''.json'')
         \<and> (\<exists>w1. save_json H c path w1 = (Inr (), w'))"
  using assms
  by (auto simp: save_data_try_def io_bind_def io_lift_def io_return_def Let_def ascii_append
           split: prod.splits sum.splits)

lemma json_file_after_save:
  assumes contract: "json_file_contract H"
    and parses: "json_loads H d = Inr j"
    and unfenced: "\<not> py_startswith (py_strip d) fence"
    and saved: "save_data_try H d p f (ascii ''json'') w = (Inr path, w')"
  shows "path = os_path_join H p (f @ ascii ''.json'')
         \<and> os_path_exists H path w'
         \<and> (\<exists>t. file_read H path w' = (Inr t, w') \<and> json_loads H t = Inr j)"
proof -
  have c: "clean_markdown_fences d = Inr (py_strip d)"
    using unfenced by (rule clean_unfenced)
  have p: "json_loads H (py_strip d) = Inr j"
    using contract parses unfolding json_file_contract_def by blast
  from save_data_try_json_returns [OF c saved]
  obtain w1 where path: "path = os_path_join H p (f @ ascii ''.json'')"
    and sj: "save_json H (py_strip d) path w1 = (Inr (), w')" by blast
  from save_json_returns [OF p sj]
  have "os_path_exists H path w'
         \<and> (\<exists>t. file_read H path w' = (Inr t, w') \<and> json_loads H t = Inr j)"
  proof
    assume "json_dump_file H j path w1 = (Inr (), w')"
    with contract show ?thesis unfolding json_file_contract_def by blast
  next
    assume "\<exists>w2. file_write H path (py_strip d) w2 = (Inr (), w')"
    then obtain w2 where "file_write H path (py_strip d) w2 = (Inr (), w')" ..
    with contract have "os_path_exists H path w'"
      and "file_read H path w' = (Inr (py_strip d), w')"
      unfolding json_file_contract_def by blast+
    with p show ?thesis by blast
  qed
  with path show ?thesis by simp
qed

text \<open>
  C9. JSON save/read round trip, on a host that keeps the contract of the file system
  and of the \<open>json\<close> library: for every string \<open>d\<close> that parses as JSON and is not
  wrapped in code fences, every \<open>output_path\<close> \<open>p\<close> and \<open>filename\<close> \<open>f\<close>, after
  \<open>save_data(d, p, f, "json")\<close> has succeeded (its body returned the file path; no
  exception reached the handler), \<open>read_data(p, f + ".json")\<close> returns a string whose
  JSON parse is the JSON parse of \<open>d\<close>. Both nodes build the same path; the reader
  takes the file for JSON, or, when the last component of \<open>f\<close> is empty or all dots, for
  plain text, and returns what the file holds.
\<close>

theorem json_round_trip:
  assumes contract: "json_file_contract H"
    and parses: "json_loads H d = Inr j"
    and unfenced: "\<not> py_startswith (py_strip d) fence"
    and saved: "save_data_try H d p f (ascii ''json'') w = (Inr path, w')"
  shows "\<exists>s w''. read_data H p (f @ ascii ''.json'') w' = (Inr s, w'')
                 \<and> json_loads H s = json_loads H d"
proof -
  from json_file_after_save [OF assms]
  obtain t where path: "path = os_path_join H p (f @ ascii ''.json'')"
    and ex: "os_path_exists H path w'"
    and rd: "file_read H path w' = (Inr t, w')"
    and t: "json_loads H t = Inr j" by blast
  from read_ext_json [of H f] show ?thesis
  proof
    assume ext: "read_ext H (f @ ascii ''.json'') = ascii ''json''"
    from contract t obtain s where s: "json_dumps H j = Inr s" and ps: "json_loads H s = Inr j"
      unfolding json_file_contract_def by blast
    from contract have "json_load_file H path w'
                          = io_bind (file_read H path) (\<lambda>t. io_lift (json_loads H t)) w'"
      unfolding json_file_contract_def by blast
    with rd t have "json_load_file H path w' = (Inr j, w')"
      by (simp add: io_bind_def io_lift_def)
    with s have "read_json H path w' = (Inr s, w')"
      by (simp add: read_json_def io_bind_def io_lift_def)
    with ex ext path have "read_data H p (f @ ascii ''.json'') w' = (Inr s, w')"
      by (simp add: read_data_def read_data_try_def io_except_def Let_def)
    with ps parses show ?thesis by simp
  next
    assume ext: "read_ext H (f @ ascii ''.json'') = []"
    have "[] \<noteq> ascii ''json''" "[] \<noteq> ascii ''xml''" "[] \<noteq> ascii ''csv''"
      "[] \<noteq> ascii ''yaml''" "[] \<noteq> ascii ''yml''"
      by (simp_all add: ascii_def)
    with ex ext path rd have "read_data H p (f @ ascii ''.json'') w' = (Inr t, w')"
      by (simp add: read_data_def read_data_try_def io_except_def Let_def)
    with t parses show ?thesis by simp
  qed
qed

lemma memory_loads_py_str: "memory_loads (py_str n) = Inr n"
  by (simp add: memory_loads_def py_int_py_str)

lemma memory_host_contract: "json_file_contract memory_host"
  unfolding json_file_contract_def
proof (intro conjI allI impI)
  fix j :: int and path :: pystr and w w' :: "pystr \<rightharpoonup> pystr"
  assume "json_dump_file memory_host j path w = (Inr (), w')"
  then have w': "w' = w(path \<mapsto> py_str j)" by (auto simp: memory_host_def)
  then show "os_path_exists memory_host path w'" by (simp add: memory_host_def)
  from w' have "file_read memory_host path w' = (Inr (py_str j), w')"
    by (simp add: memory_host_def memory_read_def)
  moreover have "json_loads memory_host (py_str j) = Inr j"
    by (simp add: memory_host_def memory_loads_py_str)
  ultimately show "\<exists>t. file_read memory_host path w' = (Inr t, w')
                       \<and> json_loads memory_host t = Inr j" by blast
next
  fix path t :: pystr and w w' :: "pystr \<rightharpoonup> pystr"
  assume "file_write memory_host path t w = (Inr (), w')"
  then have w': "w' = w(path \<mapsto> t)" by (auto simp: memory_host_def)
  then show "os_path_exists memory_host path w'" by (simp add: memory_host_def)
  from w' show "file_read memory_host path w' = (Inr t, w')"
    by (simp add: memory_host_def memory_read_def)
next
  fix path :: pystr and w :: "pystr \<rightharpoonup> pystr"
  show "json_load_file memory_host path w
          = io_bind (file_read memory_host path) (\<lambda>t. io_lift (json_loads memory_host t)) w"
    by (simp add: memory_host_def)
next
  fix t :: pystr and j :: int
  assume "json_loads memory_host t = Inr j"
  have "json_dumps memory_host j = Inr (py_str j)" by (simp add: memory_host_def)
  moreover have "json_loads memory_host (py_str j) = Inr j"
    by (simp add: memory_host_def memory_loads_py_str)
  ultimately show "\<exists>s. json_dumps memory_host j = Inr s \<and> json_loads memory_host s = Inr j"
    by blast
next
  fix t :: pystr and j :: int
  assume "json_loads memory_host t = Inr j"
  then show "json_loads memory_host (py_strip t) = Inr j"
    by (simp add: memory_host_def memory_loads_def py_int_py_strip)
qed

theorem json_round_trip_witness:
  "json_file_contract memory_host
   \<and> save_data_try memory_host (ascii '' 42 '') (ascii ''output'') (ascii ''data'')
       (ascii ''json'') Map.empty
     = (Inr (ascii ''output/data.json''), [ascii ''output/data.json'' \<mapsto> ascii ''42''])
   \<and> (\<exists>s w''. read_data memory_host (ascii ''output'') (ascii ''data.json'')
                  [ascii ''output/data.json'' \<mapsto> ascii ''42''] = (Inr s, w'')
              \<and> json_loads memory_host s = Inr 42)"
proof -
  have c: "clean_markdown_fences (ascii '' 42 '') = Inr (ascii ''42'')"
    by (simp add: clean_markdown_fences_def py_strip_def is_space_def py_startswith_def
          fence_def ascii_def)
  have st: "py_strip (ascii '' 42 '') = ascii ''42''"
    by (simp add: py_strip_def is_space_def ascii_def)
  have l42: "memory_loads (ascii ''42'') = Inr 42"
    by (simp add: memory_loads_def py_int_def py_strip_def is_space_def parse_unsigned_def
          digit_val_def ascii_def)
  have l: "json_loads memory_host (ascii '' 42 '') = Inr 42"
    by (simp add: memory_host_def memory_loads_def py_int_def py_strip_def is_space_def
          parse_unsigned_def digit_val_def ascii_def)
  have s42: "py_str 42 = ascii ''42''"
    by (simp add: py_str_def str_nat_large str_nat_small digit_char_def ascii_def)
  have u: "\<not> py_startswith (py_strip (ascii '' 42 '')) fence"
    by (simp add: st) (simp add: py_startswith_def fence_def ascii_def)
  have sv: "save_data_try memory_host (ascii '' 42 '') (ascii ''output'') (ascii ''data'')
       (ascii ''json'') Map.empty
     = (Inr (ascii ''output/data.json''), [ascii ''output/data.json'' \<mapsto> ascii ''42''])"
    unfolding save_data_try_def io_bind_def io_lift_def c
    by (simp add: memory_host_def io_return_def save_json_def io_except_def io_bind_def
          io_lift_def l42 s42 Let_def)
       (simp add: ascii_def)
  have nm: "ascii ''data'' @ ascii ''.json'' = ascii ''data.json''" by (simp add: ascii_def)
  from json_round_trip [OF memory_host_contract l u sv]
  have "\<exists>s w''. read_data memory_host (ascii ''output'') (ascii ''data.json'')
                  [ascii ''output/data.json'' \<mapsto> ascii ''42''] = (Inr s, w'')
              \<and> json_loads memory_host s = Inr 42"
    by (simp add: nm l)
  with memory_host_contract sv show ?thesis by blast
qed

end
